theory Spec2Isabelle
  imports Main
begin

section \<open>Message broker (src/lib/messageBroker.ts)\<close>

text \<open>
  Numbers of the source are modelled as integers. A message's \<open>retryCount\<close> is only ever
  written as \<open>0\<close> (by \<open>publishMessage\<close> and \<open>retryDeadLetterMessage\<close>) or as a previous
  count plus one (by the retry callback), so it is a natural number; the field is optional
  in the interface, hence the \<open>option\<close>. The field \<open>id\<close> is named \<open>msg_id\<close> and the field
  \<open>metadata\<close> is named \<open>msg_metadata\<close>, since the plain names are taken.
\<close>

datatype channel = Whatsapp | Telegram | Email | Web

record 'a message =
  msg_id :: string
  channel :: channel
  content :: string
  msg_metadata :: 'a
  timestamp :: int
  retryCount :: "nat option"

record MessageBrokerConfig =
  maxRetries :: int
  retryDelay :: int
  deadLetterQueueSize :: int

text \<open>
  The state of a \<open>MessageBroker\<close> object. Besides the four private fields of the class it
  holds what the JavaScript run time holds for it between two turns of the event loop:
  \<^item> \<open>inflight\<close>: the message that \<open>processQueue\<close> has shifted off the queue and whose
    \<open>processMessage\<close> promise it is awaiting;
  \<^item> \<open>timers\<close>: the pending \<open>setTimeout\<close> callbacks of \<open>handleFailedMessage\<close>, each with
    its delay and the two variables its closure captured (\<open>message\<close>, \<open>retryCount\<close>).
\<close>

record 'a MessageBroker =
  messageQueue :: "'a message list"
  deadLetterQueue :: "'a message list"
  processing :: bool
  config :: MessageBrokerConfig
  inflight :: "'a message option"
  timers :: "(int \<times> 'a message \<times> nat) list"

text \<open>The default argument of the constructor.\<close>

definition defaultBrokerConfig :: MessageBrokerConfig where
  "defaultBrokerConfig = \<lparr>maxRetries = 3, retryDelay = 1000, deadLetterQueueSize = 1000\<rparr>"

datatype config_error = ConfigError string

text \<open>The field initialisers of the class, with the configuration stored.\<close>

definition freshBroker :: "MessageBrokerConfig \<Rightarrow> 'a MessageBroker" where
  "freshBroker cfg =
     \<lparr>messageQueue = [], deadLetterQueue = [], processing = False, config = cfg,
      inflight = None, timers = []\<rparr>"

text \<open>
  The constructor stores the configuration and nothing else; it has no \<open>throw\<close>, so the
  error branch \<open>Inl\<close> of its result is never taken.
\<close>

definition newMessageBroker :: "MessageBrokerConfig \<Rightarrow> config_error + 'a MessageBroker" where
  "newMessageBroker cfg = Inr (freshBroker cfg)"

text \<open>
  \<open>moveToDeadLetterQueue\<close>: \<open>shift\<close> drops the oldest entry when the sink is full (and does
  nothing on an empty array, as \<open>tl\<close>), then \<open>push\<close> appends.
\<close>

definition moveToDeadLetterQueue :: "'a message \<Rightarrow> 'a MessageBroker \<Rightarrow> 'a MessageBroker" where
  "moveToDeadLetterQueue message s =
     (let dlq = (if int (length (deadLetterQueue s)) \<ge> deadLetterQueueSize (config s)
                 then tl (deadLetterQueue s) else deadLetterQueue s)
      in s\<lparr>deadLetterQueue := dlq @ [message]\<rparr>)"

text \<open>\<open>message.retryCount || 0\<close>: an absent count and the count \<open>0\<close> both give \<open>0\<close>.\<close>

definition retryCountOr0 :: "'a message \<Rightarrow> nat" where
  "retryCountOr0 message = (case retryCount message of None \<Rightarrow> 0 | Some n \<Rightarrow> n)"

text \<open>The delay passed to \<open>setTimeout\<close>: \<open>retryDelay * Math.pow(2, retryCount - 1)\<close>.\<close>

definition backoffDelay :: "MessageBrokerConfig \<Rightarrow> nat \<Rightarrow> int" where
  "backoffDelay cfg rc = retryDelay cfg * 2 ^ (rc - 1)"

text \<open>
  \<open>handleFailedMessage\<close>: the budget test comes first; within budget a callback is
  registered with \<open>setTimeout\<close>, otherwise the message goes to the dead-letter queue.
\<close>

definition handleFailedMessage :: "'a message \<Rightarrow> 'a MessageBroker \<Rightarrow> 'a MessageBroker" where
  "handleFailedMessage message s =
     (let rc = retryCountOr0 message + 1 in
      if int rc \<le> maxRetries (config s)
      then s\<lparr>timers := timers s @ [(backoffDelay (config s) rc, message, rc)]\<rparr>
      else moveToDeadLetterQueue message s)"

text \<open>
  The body of the \<open>setTimeout\<close> callback: it builds \<open>{ ...message, retryCount }\<close> and
  \<open>unshift\<close>s it. It does nothing else; in particular it does not call \<open>processQueue\<close>.
\<close>

definition retryCallback :: "'a message \<Rightarrow> nat \<Rightarrow> 'a MessageBroker \<Rightarrow> 'a MessageBroker" where
  "retryCallback message rc s =
     s\<lparr>messageQueue := (message\<lparr>retryCount := Some rc\<rparr>) # messageQueue s\<rparr>"

text \<open>The \<open>i\<close>-th pending timer expires: it leaves the pending list and its callback runs.\<close>

definition timerFires :: "nat \<Rightarrow> 'a MessageBroker \<Rightarrow> 'a MessageBroker" where
  "timerFires i s =
     (if i < length (timers s)
      then (case timers s ! i of (d, message, rc) \<Rightarrow>
              retryCallback message rc (s\<lparr>timers := take i (timers s) @ drop (Suc i) (timers s)\<rparr>))
      else s)"

text \<open>
  The head of the \<open>while\<close> loop of \<open>processQueue\<close>, up to the \<open>await\<close>: with a non-empty
  queue the head is shifted off and handed to \<open>processMessage\<close>; with an empty queue the
  loop is left and \<open>processing\<close> is reset.
\<close>

definition loopHead :: "'a MessageBroker \<Rightarrow> 'a MessageBroker" where
  "loopHead s =
     (case messageQueue s of
        [] \<Rightarrow> s\<lparr>processing := False, inflight := None\<rparr>
      | message # rest \<Rightarrow> s\<lparr>messageQueue := rest, inflight := Some message\<rparr>)"

text \<open>A call of \<open>processQueue\<close> runs synchronously up to its first \<open>await\<close>.\<close>

definition processQueue :: "'a MessageBroker \<Rightarrow> 'a MessageBroker" where
  "processQueue s = loopHead (s\<lparr>processing := True\<rparr>)"

text \<open>
  The awaited \<open>processMessage\<close> promise settles: fulfilled (\<open>ok\<close>) or rejected. On
  rejection the \<open>catch\<close> block runs \<open>handleFailedMessage\<close>; either way the loop goes back
  to its head. Without a message in flight there is no such event.
\<close>

definition processMessageSettled :: "bool \<Rightarrow> 'a MessageBroker \<Rightarrow> 'a MessageBroker" where
  "processMessageSettled ok s =
     (case inflight s of
        None \<Rightarrow> s
      | Some message \<Rightarrow>
          (if ok then loopHead (s\<lparr>inflight := None\<rparr>)
           else loopHead (handleFailedMessage message (s\<lparr>inflight := None\<rparr>))))"

text \<open>
  \<open>publishMessage\<close>. The identifier (built from the clock and \<open>Math.random\<close>) and the time
  stamp are supplied by the environment.
\<close>

definition publishMessage ::
  "string \<Rightarrow> int \<Rightarrow> channel \<Rightarrow> string \<Rightarrow> 'a \<Rightarrow> 'a MessageBroker \<Rightarrow> string \<times> 'a MessageBroker" where
  "publishMessage newId now ch txt md s =
     (let messageWithId = \<lparr>msg_id = newId, channel = ch, content = txt, msg_metadata = md,
                            timestamp = now, retryCount = Some 0\<rparr>;
          s1 = s\<lparr>messageQueue := messageQueue s @ [messageWithId]\<rparr>
      in (newId, if \<not> processing s1 then processQueue s1 else s1))"

text \<open>\<open>Array.prototype.findIndex\<close>, with \<open>None\<close> for \<open>-1\<close>.\<close>

fun findIndex :: "('a \<Rightarrow> bool) \<Rightarrow> 'a list \<Rightarrow> nat option" where
  "findIndex p [] = None"
| "findIndex p (x # xs) =
     (if p x then Some 0 else (case findIndex p xs of None \<Rightarrow> None | Some i \<Rightarrow> Some (Suc i)))"

definition retryDeadLetterMessage :: "string \<Rightarrow> 'a MessageBroker \<Rightarrow> bool \<times> 'a MessageBroker" where
  "retryDeadLetterMessage messageId s =
     (case findIndex (\<lambda>msg. msg_id msg = messageId) (deadLetterQueue s) of
        None \<Rightarrow> (False, s)
      | Some messageIndex \<Rightarrow>
          (let message = (deadLetterQueue s ! messageIndex)\<lparr>retryCount := Some 0\<rparr>;
               s1 = s\<lparr>deadLetterQueue := take messageIndex (deadLetterQueue s)
                                           @ drop (Suc messageIndex) (deadLetterQueue s),
                      messageQueue := messageQueue s @ [message]\<rparr>
           in (True, if \<not> processing s1 then processQueue s1 else s1)))"

text \<open>\<open>getQueueStats\<close>: active messages, dead-letter messages, the processing flag.\<close>

definition getQueueStats :: "'a MessageBroker \<Rightarrow> nat \<times> nat \<times> bool" where
  "getQueueStats s = (length (messageQueue s), length (deadLetterQueue s), processing s)"

text \<open>Everything that can happen to a broker, and runs of such events.\<close>

datatype 'a event =
    Publish string int channel string 'a
  | Settled bool
  | TimerFires nat
  | RetryDeadLetter string

fun step :: "'a MessageBroker \<Rightarrow> 'a event \<Rightarrow> 'a MessageBroker" where
  "step s (Publish newId now ch txt md) = snd (publishMessage newId now ch txt md s)"
| "step s (Settled ok) = processMessageSettled ok s"
| "step s (TimerFires i) = timerFires i s"
| "step s (RetryDeadLetter messageId) = snd (retryDeadLetterMessage messageId s)"

definition run :: "'a MessageBroker \<Rightarrow> 'a event list \<Rightarrow> 'a MessageBroker" where
  "run s evs = foldl step s evs"

text \<open>The message that \<open>publishMessage\<close> builds.\<close>

definition published :: "string \<Rightarrow> int \<Rightarrow> channel \<Rightarrow> string \<Rightarrow> 'a \<Rightarrow> 'a message" where
  "published newId now ch txt md =
     \<lparr>msg_id = newId, channel = ch, content = txt, msg_metadata = md,
      timestamp = now, retryCount = Some 0\<rparr>"

text \<open>
  One round in the life of a message whose handler rejects, in a broker that keeps
  receiving messages: the handler of the message in flight rejects; the message that was
  waiting behind it, if any, is handled successfully; the retry timer expires; and a
  further event \<open>kick\<close> (a publish) follows.
\<close>

definition isPublish :: "'a event \<Rightarrow> bool" where
  "isPublish e = (case e of Publish newId now ch body md \<Rightarrow> True | _ \<Rightarrow> False)"

definition retryRound :: "'a MessageBroker \<Rightarrow> 'a event \<Rightarrow> 'a MessageBroker" where
  "retryRound s kick = run s [Settled False, Settled True, TimerFires 0, kick]"

section \<open>Idempotency manager (src/lib/encryption.ts, second part)\<close>

text \<open>
  Dates are integers (milliseconds); every \<open>new Date()\<close> of the source is a time argument
  of the model. The \<open>any\<close>-typed \<open>result\<close> of a record holds either what the action
  returned or the \<open>{ error, timestamp }\<close> object written by \<open>markFailed\<close> (whose time stamp
  is kept as the time itself, not as its ISO string).
\<close>

datatype action_status = Pending | Completed | Failed

datatype 'r stored_result = ActionResult 'r | ErrorResult string int

text \<open>
  \<open>Record<string, any>\<close> metadata. The two entries the manager itself reads or writes are
  fields of their own: \<open>retryCount\<close> (a number when present) and \<open>lastError\<close>; all other
  entries are the map \<open>md_other\<close>.
\<close>

record 'x Metadata =
  md_retryCount :: "int option"
  md_lastError :: "string option"
  md_other :: "string \<rightharpoonup> 'x"

record ('r, 'x) IdempotencyRecord =
  actionId :: string
  customerId :: string
  actionType :: string
  status :: action_status
  result :: "'r stored_result option"
  createdAt :: int
  completedAt :: "int option"
  expiresAt :: int
  metadata :: "'x Metadata option"

text \<open>The field \<open>maxRetries\<close> of \<open>IdempotencyConfig\<close> is named \<open>idemMaxRetries\<close> here.\<close>

record IdempotencyConfig =
  ttlMs :: int
  idemMaxRetries :: int
  cleanupIntervalMs :: int

definition defaultIdempotencyConfig :: IdempotencyConfig where
  "defaultIdempotencyConfig =
     \<lparr>ttlMs = 24 * 60 * 60 * 1000, idemMaxRetries = 3, cleanupIntervalMs = 60 * 60 * 1000\<rparr>"

record ('r, 'x) IdempotencyManager =
  store :: "string \<rightharpoonup> ('r, 'x) IdempotencyRecord"
  idemConfig :: IdempotencyConfig

text \<open>
  The constructor stores the configuration and starts the clean-up interval; it has no
  \<open>throw\<close> either.
\<close>

definition newIdempotencyManager ::
  "IdempotencyConfig \<Rightarrow> config_error + ('r, 'x) IdempotencyManager" where
  "newIdempotencyManager cfg = Inr \<lparr>store = Map.empty, idemConfig = cfg\<rparr>"

text \<open>\<open>generateKey\<close>: the template string \<open>`${customerId}:${actionId}`\<close>.\<close>

definition generateKey :: "string \<Rightarrow> string \<Rightarrow> string" where
  "generateKey aid cid = cid @ '':'' @ aid"

text \<open>\<open>metadata?.retryCount || 0\<close>: no metadata, no entry and the entry \<open>0\<close> all give \<open>0\<close>.\<close>

definition retryCountOf :: "'x Metadata option \<Rightarrow> int" where
  "retryCountOf md =
     (case md of None \<Rightarrow> 0
      | Some m \<Rightarrow> (case md_retryCount m of None \<Rightarrow> 0 | Some n \<Rightarrow> n))"

text \<open>
  The object spread \<open>{ ...a, ...b }\<close> of two possibly undefined metadata objects: entries
  of \<open>b\<close> win.
\<close>

definition emptyMetadata :: "'x Metadata" where
  "emptyMetadata = \<lparr>md_retryCount = None, md_lastError = None, md_other = Map.empty\<rparr>"

definition spread :: "'x Metadata option \<Rightarrow> 'x Metadata option \<Rightarrow> 'x Metadata" where
  "spread a b =
     (let x = (case a of None \<Rightarrow> emptyMetadata | Some m \<Rightarrow> m);
          y = (case b of None \<Rightarrow> emptyMetadata | Some m \<Rightarrow> m)
      in \<lparr>md_retryCount = (case md_retryCount y of None \<Rightarrow> md_retryCount x | Some n \<Rightarrow> Some n),
          md_lastError = (case md_lastError y of None \<Rightarrow> md_lastError x | Some e \<Rightarrow> Some e),
          md_other = md_other x ++ md_other y\<rparr>)"

record ('r, 'x) CheckResult =
  canProceed :: bool
  existingRecord :: "('r, 'x) IdempotencyRecord option"
  reason :: "string option"

text \<open>
  \<open>checkIdempotency\<close>, branch by branch in the order of the source. The last branch
  (\<open>Unknown status\<close>) is kept although the three statuses are exhaustive.
\<close>

definition checkIdempotency ::
  "int \<Rightarrow> string \<Rightarrow> string \<Rightarrow> string \<Rightarrow> ('r, 'x) IdempotencyManager
     \<Rightarrow> ('r, 'x) CheckResult \<times> ('r, 'x) IdempotencyManager" where
  "checkIdempotency now aid cid atype s =
     (let key = generateKey aid cid in
      case store s key of
        None \<Rightarrow> (\<lparr>canProceed = True, existingRecord = None, reason = None\<rparr>, s)
      | Some r \<Rightarrow>
          if now > expiresAt r
          then (\<lparr>canProceed = True, existingRecord = None, reason = None\<rparr>,
                s\<lparr>store := (store s)(key := None)\<rparr>)
          else if status r = Pending
          then (\<lparr>canProceed = False, existingRecord = Some r,
                  reason = Some ''Action is still in progress''\<rparr>, s)
          else if status r = Completed
          then (\<lparr>canProceed = False, existingRecord = Some r,
                  reason = Some ''Action already completed''\<rparr>, s)
          else if status r = Failed
          then (let rc = retryCountOf (metadata r) in
                if rc \<ge> idemMaxRetries (idemConfig s)
                then (\<lparr>canProceed = False, existingRecord = Some r,
                        reason = Some ''Max retries exceeded''\<rparr>, s)
                else (\<lparr>canProceed = True, existingRecord = Some r, reason = None\<rparr>, s))
          else (\<lparr>canProceed = False, existingRecord = Some r,
                  reason = Some ''Unknown status''\<rparr>, s))"

definition storeAction ::
  "int \<Rightarrow> string \<Rightarrow> string \<Rightarrow> string \<Rightarrow> 'x Metadata option \<Rightarrow> ('r, 'x) IdempotencyManager
     \<Rightarrow> ('r, 'x) IdempotencyRecord \<times> ('r, 'x) IdempotencyManager" where
  "storeAction now aid cid atype md s =
     (let key = generateKey aid cid;
          record = \<lparr>actionId = aid, customerId = cid, actionType = atype, status = Pending,
                    result = None, createdAt = now, completedAt = None,
                    expiresAt = now + ttlMs (idemConfig s), metadata = md\<rparr>
      in (record, s\<lparr>store := (store s)(key \<mapsto> record)\<rparr>))"

definition markCompleted ::
  "int \<Rightarrow> string \<Rightarrow> string \<Rightarrow> 'r \<Rightarrow> 'x Metadata option \<Rightarrow> ('r, 'x) IdempotencyManager
     \<Rightarrow> bool \<times> ('r, 'x) IdempotencyManager" where
  "markCompleted now aid cid res md s =
     (let key = generateKey aid cid in
      case store s key of
        None \<Rightarrow> (False, s)
      | Some r \<Rightarrow>
          (let r1 = r\<lparr>status := Completed, result := Some (ActionResult res),
                      completedAt := Some now\<rparr>;
               r2 = (case md of None \<Rightarrow> r1
                     | Some m \<Rightarrow> r1\<lparr>metadata := Some (spread (metadata r) md)\<rparr>)
           in (True, s\<lparr>store := (store s)(key \<mapsto> r2)\<rparr>)))"

text \<open>
  \<open>markFailed\<close>; its two readings of the clock (for \<open>timestamp\<close> and for \<open>completedAt\<close>) are
  the one argument \<open>now\<close>.
\<close>

definition markFailed ::
  "int \<Rightarrow> string \<Rightarrow> string \<Rightarrow> string \<Rightarrow> 'x Metadata option \<Rightarrow> ('r, 'x) IdempotencyManager
     \<Rightarrow> bool \<times> ('r, 'x) IdempotencyManager" where
  "markFailed now aid cid err md s =
     (let key = generateKey aid cid in
      case store s key of
        None \<Rightarrow> (False, s)
      | Some r \<Rightarrow>
          (let rc = retryCountOf (metadata r) + 1;
               r1 = r\<lparr>status := Failed, result := Some (ErrorResult err now),
                      completedAt := Some now,
                      metadata := Some ((spread (metadata r) md)
                                    \<lparr>md_retryCount := Some rc, md_lastError := Some err\<rparr>)\<rparr>
           in (True, s\<lparr>store := (store s)(key \<mapsto> r1)\<rparr>)))"

text \<open>
  What the awaited \<open>actionFunction()\<close> does: it resolves with a value, or rejects with an
  \<open>Error\<close> (whose message is kept) or with something that is no \<open>Error\<close>. The action is a
  function on a state \<open>'w\<close> of the world outside the manager, so that invoking it shows.
\<close>

datatype 'r outcome = Resolved 'r | RejectedError string | RejectedOther

record 'r ExecResponse =
  success :: bool
  resp_result :: "'r stored_result option"
  fromCache :: bool
  error :: "string option"

text \<open>\<open>reason || 'Cannot proceed with action'\<close>: an absent and an empty reason give the default.\<close>

definition reasonOrDefault :: "string option \<Rightarrow> string" where
  "reasonOrDefault r =
     (case r of None \<Rightarrow> ''Cannot proceed with action''
      | Some x \<Rightarrow> if x = [] then ''Cannot proceed with action'' else x)"

definition errorMessage :: "'r outcome \<Rightarrow> string" where
  "errorMessage out =
     (case out of RejectedError msg \<Rightarrow> msg | _ \<Rightarrow> ''Unknown error'')"

text \<open>
  \<open>executeWithIdempotency\<close>, with the clock read at the check (\<open>t0\<close>), at \<open>storeAction\<close>
  (\<open>t1\<close>) and at the mark (\<open>t2\<close>). None of the manager's methods throws, so the outer
  \<open>catch\<close> is never entered.
\<close>

definition executeWithIdempotency ::
  "int \<Rightarrow> int \<Rightarrow> int \<Rightarrow> string \<Rightarrow> string \<Rightarrow> string \<Rightarrow> ('w \<Rightarrow> 'r outcome \<times> 'w)
     \<Rightarrow> 'x Metadata option \<Rightarrow> ('r, 'x) IdempotencyManager \<times> 'w
     \<Rightarrow> 'r ExecResponse \<times> ('r, 'x) IdempotencyManager \<times> 'w" where
  "executeWithIdempotency t0 t1 t2 aid cid atype actionFunction md sw =
     (case sw of (s, w) \<Rightarrow>
      (case checkIdempotency t0 aid cid atype s of (idempotencyCheck, s0) \<Rightarrow>
        if \<not> canProceed idempotencyCheck
           \<and> map_option status (existingRecord idempotencyCheck) = Some Completed
        then (\<lparr>success = True,
                resp_result = (case existingRecord idempotencyCheck of
                                 None \<Rightarrow> None | Some r \<Rightarrow> result r),
                fromCache = True, error = None\<rparr>, s0, w)
        else if \<not> canProceed idempotencyCheck
        then (\<lparr>success = False, resp_result = None, fromCache = False,
                error = Some (reasonOrDefault (reason idempotencyCheck))\<rparr>, s0, w)
        else
          (case storeAction t1 aid cid atype md s0 of (record, s1) \<Rightarrow>
            (case actionFunction w of
               (Resolved res, w') \<Rightarrow>
                 (\<lparr>success = True, resp_result = Some (ActionResult res), fromCache = False,
                   error = None\<rparr>,
                  snd (markCompleted t2 aid cid res None s1), w')
             | (out, w') \<Rightarrow>
                 (\<lparr>success = False, resp_result = None, fromCache = False,
                   error = Some (errorMessage out)\<rparr>,
                  snd (markFailed t2 aid cid (errorMessage out) None s1), w')))))"

text \<open>A call of \<open>executeWithIdempotency\<close> for a fixed key, and sequences of such calls.\<close>

record ('r, 'x, 'w) call =
  tCheck :: int
  tStore :: int
  tDone :: int
  callAction :: "'w \<Rightarrow> 'r outcome \<times> 'w"
  callMetadata :: "'x Metadata option"

definition execCall ::
  "string \<Rightarrow> string \<Rightarrow> string \<Rightarrow> ('r, 'x, 'w) call \<Rightarrow> ('r, 'x) IdempotencyManager \<times> 'w
     \<Rightarrow> 'r ExecResponse \<times> ('r, 'x) IdempotencyManager \<times> 'w" where
  "execCall aid cid atype c sw =
     executeWithIdempotency (tCheck c) (tStore c) (tDone c) aid cid atype
       (callAction c) (callMetadata c) sw"

fun execCalls ::
  "string \<Rightarrow> string \<Rightarrow> string \<Rightarrow> ('r, 'x, 'w) call list \<Rightarrow> ('r, 'x) IdempotencyManager \<times> 'w
     \<Rightarrow> 'r ExecResponse list \<times> ('r, 'x) IdempotencyManager \<times> 'w" where
  "execCalls aid cid atype [] sw = ([], sw)"
| "execCalls aid cid atype (c # cs) sw =
     (case execCall aid cid atype c sw of (resp, sw') \<Rightarrow>
        (case execCalls aid cid atype cs sw' of (resps, sw'') \<Rightarrow> (resp # resps, sw'')))"

section \<open>Vocabulary of the properties\<close>

text \<open>
  The record that \<open>executeWithIdempotency\<close> is expected to leave behind after an action
  that resolved, and after one that rejected.
\<close>

definition completedRecord ::
  "IdempotencyConfig \<Rightarrow> int \<Rightarrow> int \<Rightarrow> string \<Rightarrow> string \<Rightarrow> string \<Rightarrow> 'x Metadata option \<Rightarrow> 'r
     \<Rightarrow> ('r, 'x) IdempotencyRecord" where
  "completedRecord cfg t1 t2 aid cid atype md res =
     \<lparr>actionId = aid, customerId = cid, actionType = atype, status = Completed,
      result = Some (ActionResult res), createdAt = t1, completedAt = Some t2,
      expiresAt = t1 + ttlMs cfg, metadata = md\<rparr>"

definition failedRecord ::
  "IdempotencyConfig \<Rightarrow> int \<Rightarrow> int \<Rightarrow> string \<Rightarrow> string \<Rightarrow> string \<Rightarrow> 'x Metadata option \<Rightarrow> string
     \<Rightarrow> ('r, 'x) IdempotencyRecord" where
  "failedRecord cfg t1 t2 aid cid atype md err =
     \<lparr>actionId = aid, customerId = cid, actionType = atype, status = Failed,
      result = Some (ErrorResult err t2), createdAt = t1, completedAt = Some t2,
      expiresAt = t1 + ttlMs cfg,
      metadata = Some ((spread md None)\<lparr>md_retryCount := Some (retryCountOf md + 1),
                                          md_lastError := Some err\<rparr>)\<rparr>"

text \<open>
  The key has no record, or an expired one, or a failed one with retries left: the states
  in which the check lets a call through.
\<close>

definition mayProceed :: "int \<Rightarrow> string \<Rightarrow> ('r, 'x) IdempotencyManager \<Rightarrow> bool" where
  "mayProceed t0 key s =
     (case store s key of
        None \<Rightarrow> True
      | Some r \<Rightarrow> t0 > expiresAt r
                  \<or> (status r = Failed \<and> retryCountOf (metadata r) < idemMaxRetries (idemConfig s)))"

text \<open>A response that reports an execution of the action which resolved.\<close>

definition freshSuccess :: "'r ExecResponse \<Rightarrow> bool" where
  "freshSuccess r = (success r \<and> \<not> fromCache r)"

text \<open>An action that rejects in every state of the world.\<close>

definition alwaysFails :: "('w \<Rightarrow> 'r outcome \<times> 'w) \<Rightarrow> bool" where
  "alwaysFails act = (\<forall>w res. fst (act w) \<noteq> Resolved res)"

text \<open>
  The states of a key that repeated failing calls move between: no record, or a failed
  record whose count is \<open>1\<close>.
\<close>

definition retryable :: "string \<Rightarrow> ('r, 'x) IdempotencyManager \<Rightarrow> bool" where
  "retryable key s =
     (case store s key of
        None \<Rightarrow> True
      | Some r \<Rightarrow> status r = Failed \<and> retryCountOf (metadata r) = 1)"

subsection \<open>Concrete inputs\<close>

definition exampleMessage :: "string \<Rightarrow> unit message" where
  "exampleMessage i = published i 0 Web ''hello'' ()"

text \<open>A broker with room for two dead letters, both taken.\<close>

definition smallConfig :: MessageBrokerConfig where
  "smallConfig = \<lparr>maxRetries = 3, retryDelay = 1000, deadLetterQueueSize = 2\<rparr>"

definition fullBroker :: "unit MessageBroker" where
  "fullBroker = (freshBroker smallConfig)
     \<lparr>deadLetterQueue := [exampleMessage ''a'', exampleMessage ''b'']\<rparr>"

text \<open>
  One message published to a new broker with the default configuration; its handler
  rejects, the dispatcher finds the queue empty and goes idle, and the retry timer expires.
\<close>

definition oneMessageBroker :: "unit MessageBroker" where
  "oneMessageBroker = snd (publishMessage ''m1'' 0 Web ''hello'' () (freshBroker defaultBrokerConfig))"

definition stalledBroker :: "unit MessageBroker" where
  "stalledBroker = timerFires 0 (processMessageSettled False oneMessageBroker)"

definition negativeConfig :: MessageBrokerConfig where
  "negativeConfig = \<lparr>maxRetries = - 1, retryDelay = 1000, deadLetterQueueSize = 0\<rparr>"

definition negativeIdempotencyConfig :: IdempotencyConfig where
  "negativeIdempotencyConfig = \<lparr>ttlMs = 1000, idemMaxRetries = - 1, cleanupIntervalMs = 1000\<rparr>"

text \<open>Actions on a world that counts the invocations.\<close>

definition countingAction :: "nat \<Rightarrow> nat outcome \<times> nat" where
  "countingAction n = (Resolved 7, Suc n)"

definition failingAction :: "nat \<Rightarrow> nat outcome \<times> nat" where
  "failingAction n = (RejectedError ''boom'', Suc n)"

definition emptyLedger :: "IdempotencyConfig \<Rightarrow> (nat, unit) IdempotencyManager" where
  "emptyLedger cfg = \<lparr>store = Map.empty, idemConfig = cfg\<rparr>"

definition callAt :: "int \<Rightarrow> (nat \<Rightarrow> nat outcome \<times> nat) \<Rightarrow> (nat, unit, nat) call" where
  "callAt t act = \<lparr>tCheck = t, tStore = t, tDone = t + 1, callAction = act, callMetadata = None\<rparr>"

text \<open>A ledger in which customer \<open>a:b\<close> has completed action \<open>c\<close> with result \<open>42\<close>.\<close>

definition colonLedger :: "(nat, unit) IdempotencyManager" where
  "colonLedger =
     \<lparr>store = Map.empty(generateKey ''c'' ''a:b'' \<mapsto>
                completedRecord defaultIdempotencyConfig 0 5 ''c'' ''a:b'' ''pay'' None 42),
      idemConfig = defaultIdempotencyConfig\<rparr>"

definition oneRetryConfig :: IdempotencyConfig where
  "oneRetryConfig = \<lparr>ttlMs = 1000, idemMaxRetries = 1, cleanupIntervalMs = 1000\<rparr>"

text \<open>
  The events that need no caller: a settled handler (\<open>Inl ok\<close>) or an expired timer
  (\<open>Inr i\<close>).
\<close>

definition quietEvent :: "bool + nat \<Rightarrow> 'a event" where
  "quietEvent x = (case x of Inl ok \<Rightarrow> Settled ok | Inr i \<Rightarrow> TimerFires i)"

text \<open>A ledger with a negative retry budget and a failed record (count \<open>1\<close>, live until 1000).\<close>

definition negativeLedger :: "(nat, unit) IdempotencyManager" where
  "negativeLedger =
     \<lparr>store = Map.empty(generateKey ''act'' ''cust'' \<mapsto>
                failedRecord negativeIdempotencyConfig 0 1 ''act'' ''cust'' ''pay'' None ''boom''),
      idemConfig = negativeIdempotencyConfig\<rparr>"

section \<open>Properties of the message broker\<close>

subsection \<open>Basic facts\<close>

lemma deadLetterQueue_loopHead [simp]: "deadLetterQueue (loopHead s) = deadLetterQueue s"
  by (simp add: loopHead_def split: list.splits)

lemma config_loopHead [simp]: "config (loopHead s) = config s"
  by (simp add: loopHead_def split: list.splits)

lemma timers_loopHead [simp]: "timers (loopHead s) = timers s"
  by (simp add: loopHead_def split: list.splits)

lemma config_step [simp]: "config (step s e) = config s"
  by (cases e)
     (auto simp: publishMessage_def processQueue_def processMessageSettled_def
        handleFailedMessage_def moveToDeadLetterQueue_def timerFires_def retryCallback_def
        retryDeadLetterMessage_def Let_def split: option.splits prod.splits)

lemma findIndex_Some:
  "findIndex p xs = Some i \<Longrightarrow> i < length xs \<and> p (xs ! i) \<and> (\<forall>j<i. \<not> p (xs ! j))"
proof (induction xs arbitrary: i)
  case Nil
  then show ?case by simp
next
  case (Cons x xs)
  show ?case
  proof (cases "p x")
    case True
    with Cons.prems show ?thesis by simp
  next
    case False
    with Cons.prems obtain k where k: "findIndex p xs = Some k" "i = Suc k"
      by (auto split: option.splits)
    from Cons.IH[OF k(1)] False k(2) show ?thesis
      by (auto simp: less_Suc_eq_0_disj)
  qed
qed

lemma findIndex_None: "findIndex p xs = None \<longleftrightarrow> (\<forall>x\<in>set xs. \<not> p x)"
  by (induction xs) (auto split: option.splits)

lemma findIndex_removed:
  "findIndex (\<lambda>m. f m = a) xs = Some i \<Longrightarrow> distinct (map f xs) \<Longrightarrow>
   findIndex (\<lambda>m. f m = a) (take i xs @ drop (Suc i) xs) = None"
proof (induction xs arbitrary: i)
  case Nil
  then show ?case by simp
next
  case (Cons x xs)
  show ?case
  proof (cases "f x = a")
    case True
    with Cons.prems have "i = 0" and "\<forall>y\<in>set xs. f y \<noteq> a"
      by (auto simp: image_iff)
    then show ?thesis by (simp add: findIndex_None)
  next
    case False
    with Cons.prems obtain k where k: "findIndex (\<lambda>m. f m = a) xs = Some k" "i = Suc k"
      by (auto split: option.splits)
    from Cons.IH[OF k(1)] Cons.prems(2) False k(2) show ?thesis by simp
  qed
qed

text \<open>
  The two siblings of the retry callback start the dispatcher when they find it idle;
  the callback itself never touches the flag.
\<close>

lemma publishMessage_starts_dispatcher:
  "processing (snd (publishMessage newId now ch txt md s))"
  by (simp add: publishMessage_def processQueue_def loopHead_def Let_def split: list.splits)

lemma timerFires_keeps_flag: "processing (timerFires i s) = processing s"
  by (simp add: timerFires_def retryCallback_def split: prod.splits)

lemma loopHead_idle_iff: "processing s \<Longrightarrow> \<not> processing (loopHead s) \<longleftrightarrow> messageQueue s = []"
  by (simp add: loopHead_def split: list.splits)

subsection \<open>One message whose handler always rejects\<close>

lemma publish_fresh:
  "snd (publishMessage newId now ch txt md (freshBroker cfg))
     = (freshBroker cfg)\<lparr>processing := True, inflight := Some (published newId now ch txt md)\<rparr>"
  by (simp add: publishMessage_def freshBroker_def processQueue_def loopHead_def published_def Let_def)

lemma oneMessageBroker_eq:
  "oneMessageBroker
     = (freshBroker defaultBrokerConfig)\<lparr>processing := True, inflight := Some (exampleMessage ''m1'')\<rparr>"
  by (simp add: oneMessageBroker_def publish_fresh exampleMessage_def)

lemma stalledBroker_eq:
  "stalledBroker
     = (freshBroker defaultBrokerConfig)
         \<lparr>messageQueue := [(exampleMessage ''m1'')\<lparr>retryCount := Some 1\<rparr>]\<rparr>"
  by (simp add: stalledBroker_def oneMessageBroker_eq freshBroker_def defaultBrokerConfig_def
      exampleMessage_def published_def loopHead_def processMessageSettled_def
      handleFailedMessage_def retryCountOr0_def timerFires_def retryCallback_def Let_def)

lemma retryRound_busy:
  assumes "isPublish kick" "length q \<le> 1" "int (Suc k) \<le> maxRetries cfg"
  shows "\<exists>q'. length q' \<le> 1 \<and>
     retryRound ((freshBroker cfg)\<lparr>messageQueue := q, processing := True,
                                     inflight := Some (m\<lparr>retryCount := Some k\<rparr>)\<rparr>) kick
       = (freshBroker cfg)\<lparr>messageQueue := q', processing := True,
                             inflight := Some (m\<lparr>retryCount := Some (Suc k)\<rparr>)\<rparr>"
proof -
  from assms(1) obtain newId now ch body md where kick: "kick = Publish newId now ch body md"
    by (cases kick) (simp_all add: isPublish_def)
  from assms(2) consider "q = []" | x where "q = [x]"
    by (cases q) (auto simp: length_Suc_conv)
  then show ?thesis
  proof cases
    case 1
    with assms(3) kick show ?thesis
      by (intro exI[of _ "[published newId now ch body md]"])
         (simp add: retryRound_def run_def processMessageSettled_def handleFailedMessage_def
            retryCountOr0_def freshBroker_def loopHead_def timerFires_def retryCallback_def
            publishMessage_def processQueue_def published_def Let_def)
  next
    case 2
    with assms(3) kick show ?thesis
      by (intro exI[of _ "[published newId now ch body md]"])
         (simp add: retryRound_def run_def processMessageSettled_def handleFailedMessage_def
            retryCountOr0_def freshBroker_def loopHead_def timerFires_def retryCallback_def
            publishMessage_def processQueue_def published_def Let_def)
  qed
qed

lemma retryRounds_busy:
  assumes "retryCount m = Some 0"
  shows "list_all isPublish kicks \<Longrightarrow> int (length kicks) \<le> maxRetries cfg \<Longrightarrow>
     \<exists>q. length q \<le> 1 \<and>
       foldl retryRound ((freshBroker cfg)\<lparr>processing := True, inflight := Some m\<rparr>) kicks
         = (freshBroker cfg)\<lparr>messageQueue := q, processing := True,
                               inflight := Some (m\<lparr>retryCount := Some (length kicks)\<rparr>)\<rparr>"
proof (induction kicks rule: rev_induct)
  case Nil
  from assms have "m\<lparr>retryCount := Some 0\<rparr> = m" by simp
  then show ?case
    by (intro exI[of _ "[]"]) (simp add: freshBroker_def)
next
  case (snoc kick kicks)
  then have "list_all isPublish kicks" "int (length kicks) \<le> maxRetries cfg"
    and kick: "isPublish kick" and le: "int (Suc (length kicks)) \<le> maxRetries cfg"
    by simp_all
  from snoc.IH[OF this(1,2)] obtain q where q: "length q \<le> 1"
    "foldl retryRound ((freshBroker cfg)\<lparr>processing := True, inflight := Some m\<rparr>) kicks
       = (freshBroker cfg)\<lparr>messageQueue := q, processing := True,
                             inflight := Some (m\<lparr>retryCount := Some (length kicks)\<rparr>)\<rparr>"
    by blast
  from retryRound_busy[OF kick q(1) le, of m] q(2) show ?case by simp
qed

lemma final_attempt_busy:
  assumes "length q \<le> 1" "int k = maxRetries cfg"
  shows "run ((freshBroker cfg)\<lparr>messageQueue := q, processing := True,
                                 inflight := Some (m\<lparr>retryCount := Some k\<rparr>)\<rparr>)
             [Settled False, Settled True]
          = (freshBroker cfg)\<lparr>deadLetterQueue := [m\<lparr>retryCount := Some k\<rparr>]\<rparr>"
proof -
  from assms(1) consider "q = []" | x where "q = [x]"
    by (cases q) (auto simp: length_Suc_conv)
  then show ?thesis
  proof cases
    case 1
    with assms(2) show ?thesis
      by (simp add: run_def processMessageSettled_def handleFailedMessage_def retryCountOr0_def
          freshBroker_def loopHead_def moveToDeadLetterQueue_def Let_def)
  next
    case 2
    with assms(2) show ?thesis
      by (simp add: run_def processMessageSettled_def handleFailedMessage_def retryCountOr0_def
          freshBroker_def loopHead_def moveToDeadLetterQueue_def Let_def)
  qed
qed

lemma failed_attempt:
  assumes "inflight s = Some m"
  shows "(int (retryCountOr0 m + 1) \<le> maxRetries (config s) \<longrightarrow>
            timers (processMessageSettled False s)
              = timers s @ [(backoffDelay (config s) (retryCountOr0 m + 1), m, retryCountOr0 m + 1)]
          \<and> deadLetterQueue (processMessageSettled False s) = deadLetterQueue s)
       \<and> (int (retryCountOr0 m + 1) > maxRetries (config s) \<longrightarrow>
            timers (processMessageSettled False s) = timers s
          \<and> deadLetterQueue (processMessageSettled False s) \<noteq> []
          \<and> last (deadLetterQueue (processMessageSettled False s)) = m)
       \<and> (messageQueue s = [] \<longrightarrow>
            messageQueue (processMessageSettled False s) = []
          \<and> inflight (processMessageSettled False s) = None
          \<and> \<not> processing (processMessageSettled False s))"
  using assms
  by (auto simp: processMessageSettled_def handleFailedMessage_def loopHead_def
      moveToDeadLetterQueue_def Let_def split: list.splits)

text \<open>
  What a failed attempt does, in every state: the budget test decides. With
  \<open>attempt = (retryCount || 0) + 1\<close> within \<open>maxRetries\<close> a retry is registered with the
  timer and the dead-letter queue is untouched; with \<open>attempt\<close> beyond \<open>maxRetries\<close> no retry
  is registered and the message is the newest dead letter. And the count of attempts in a
  broker that keeps receiving messages, where a publish follows each reinsertion and
  starts the idle dispatcher: the message is in flight again with the number of failed
  attempts as its \<open>retryCount\<close>, and failed attempt number \<open>maxRetries + 1\<close> makes it the
  only dead letter, with 0 active messages.
\<close>

lemma retry_budget_with_later_publishes:
  "(\<forall>m. inflight s = Some m \<longrightarrow>
      (int (retryCountOr0 m + 1) \<le> maxRetries (config s) \<longrightarrow>
         timers (processMessageSettled False s)
           = timers s @ [(backoffDelay (config s) (retryCountOr0 m + 1), m, retryCountOr0 m + 1)]
       \<and> deadLetterQueue (processMessageSettled False s) = deadLetterQueue s)
    \<and> (int (retryCountOr0 m + 1) > maxRetries (config s) \<longrightarrow>
         timers (processMessageSettled False s) = timers s
       \<and> deadLetterQueue (processMessageSettled False s) \<noteq> []
       \<and> last (deadLetterQueue (processMessageSettled False s)) = m)
    \<and> (messageQueue s = [] \<longrightarrow>
         messageQueue (processMessageSettled False s) = []
       \<and> inflight (processMessageSettled False s) = None
       \<and> \<not> processing (processMessageSettled False s)))
 \<and> (list_all isPublish kicks \<and> int (length kicks) \<le> maxRetries cfg \<longrightarrow>
      inflight (foldl retryRound (snd (publishMessage newId now ch txt md (freshBroker cfg))) kicks)
        = Some ((published newId now ch txt md)\<lparr>retryCount := Some (length kicks)\<rparr>)
    \<and> processing (foldl retryRound (snd (publishMessage newId now ch txt md (freshBroker cfg))) kicks)
    \<and> deadLetterQueue (foldl retryRound (snd (publishMessage newId now ch txt md (freshBroker cfg))) kicks)
        = []
    \<and> timers (foldl retryRound (snd (publishMessage newId now ch txt md (freshBroker cfg))) kicks)
        = [])
 \<and> (list_all isPublish kicks \<and> int (length kicks) = maxRetries cfg \<longrightarrow>
      run (foldl retryRound (snd (publishMessage newId now ch txt md (freshBroker cfg))) kicks)
          [Settled False, Settled True]
        = (freshBroker cfg)\<lparr>deadLetterQueue :=
             [(published newId now ch txt md)\<lparr>retryCount := Some (length kicks)\<rparr>]\<rparr>
    \<and> getQueueStats
         (run (foldl retryRound (snd (publishMessage newId now ch txt md (freshBroker cfg))) kicks)
              [Settled False, Settled True])
        = (0, 1, False))"
proof -
  have rounds: "\<exists>q. length q \<le> 1 \<and>
       foldl retryRound (snd (publishMessage newId now ch txt md (freshBroker cfg))) kicks
         = (freshBroker cfg)\<lparr>messageQueue := q, processing := True,
              inflight := Some ((published newId now ch txt md)\<lparr>retryCount := Some (length kicks)\<rparr>)\<rparr>"
    if "list_all isPublish kicks" "int (length kicks) \<le> maxRetries cfg"
    using retryRounds_busy[OF _ that, of "published newId now ch txt md"]
    by (simp add: publish_fresh published_def)
  have part2: "inflight (foldl retryRound (snd (publishMessage newId now ch txt md (freshBroker cfg))) kicks)
        = Some ((published newId now ch txt md)\<lparr>retryCount := Some (length kicks)\<rparr>)
    \<and> processing (foldl retryRound (snd (publishMessage newId now ch txt md (freshBroker cfg))) kicks)
    \<and> deadLetterQueue (foldl retryRound (snd (publishMessage newId now ch txt md (freshBroker cfg))) kicks)
        = []
    \<and> timers (foldl retryRound (snd (publishMessage newId now ch txt md (freshBroker cfg))) kicks)
        = []"
    if "list_all isPublish kicks \<and> int (length kicks) \<le> maxRetries cfg"
  proof -
    from rounds that obtain q where
      "foldl retryRound (snd (publishMessage newId now ch txt md (freshBroker cfg))) kicks
         = (freshBroker cfg)\<lparr>messageQueue := q, processing := True,
              inflight := Some ((published newId now ch txt md)\<lparr>retryCount := Some (length kicks)\<rparr>)\<rparr>"
      by blast
    then show ?thesis by (simp add: freshBroker_def)
  qed
  have part3: "run (foldl retryRound (snd (publishMessage newId now ch txt md (freshBroker cfg))) kicks)
          [Settled False, Settled True]
        = (freshBroker cfg)\<lparr>deadLetterQueue :=
             [(published newId now ch txt md)\<lparr>retryCount := Some (length kicks)\<rparr>]\<rparr>
    \<and> getQueueStats
         (run (foldl retryRound (snd (publishMessage newId now ch txt md (freshBroker cfg))) kicks)
              [Settled False, Settled True])
        = (0, 1, False)"
    if h: "list_all isPublish kicks \<and> int (length kicks) = maxRetries cfg"
  proof -
    from h have "int (length kicks) \<le> maxRetries cfg" by simp
    with rounds h obtain q where q: "length q \<le> 1"
      "foldl retryRound (snd (publishMessage newId now ch txt md (freshBroker cfg))) kicks
         = (freshBroker cfg)\<lparr>messageQueue := q, processing := True,
              inflight := Some ((published newId now ch txt md)\<lparr>retryCount := Some (length kicks)\<rparr>)\<rparr>"
      by blast
    from h have eq: "int (length kicks) = maxRetries cfg" by simp
    from final_attempt_busy[OF q(1) eq, of "published newId now ch txt md"] q(2)
    have "run (foldl retryRound (snd (publishMessage newId now ch txt md (freshBroker cfg))) kicks)
          [Settled False, Settled True]
        = (freshBroker cfg)\<lparr>deadLetterQueue :=
             [(published newId now ch txt md)\<lparr>retryCount := Some (length kicks)\<rparr>]\<rparr>"
      by simp
    then show ?thesis by (simp add: getQueueStats_def freshBroker_def)
  qed
  from failed_attempt[of s] part2 part3 show ?thesis by blast
qed

lemma quiet_events_keep_stalledBroker:
  "run stalledBroker (map quietEvent xs) = stalledBroker"
proof (induction xs)
  case Nil
  show ?case by (simp add: run_def)
next
  case (Cons x xs)
  have "inflight stalledBroker = None" "timers stalledBroker = []"
    by (simp_all add: stalledBroker_eq freshBroker_def)
  then have "step stalledBroker (quietEvent x) = stalledBroker"
    by (cases x) (simp_all add: quietEvent_def processMessageSettled_def timerFires_def)
  with Cons.IH show ?case by (simp add: run_def)
qed

text \<open>
  Claim C3. One message is published to a new broker with the default configuration
  (\<open>maxRetries = 3\<close>) and its handler rejects. The budget test schedules the retry, the
  dispatcher goes idle, and the timer puts the message back with \<open>retryCount = 1\<close>. From
  then on, whatever handlers settle and timers expire, the broker does not move: the
  message stays in the queue (1 active message), the dead-letter queue stays empty and the
  dispatcher stays idle. The handler has been tried once, not four times, and the message
  is never dead-lettered unless some later publish or requeue starts the dispatcher.
\<close>

theorem C3_lone_message_never_dead_lettered:
  "stalledBroker
     = run (freshBroker defaultBrokerConfig)
         [Publish ''m1'' 0 Web ''hello'' (), Settled False, TimerFires 0]
 \<and> maxRetries (config stalledBroker) = 3
 \<and> run stalledBroker (map quietEvent xs) = stalledBroker
 \<and> messageQueue (run stalledBroker (map quietEvent xs))
     = [(exampleMessage ''m1'')\<lparr>retryCount := Some 1\<rparr>]
 \<and> deadLetterQueue (run stalledBroker (map quietEvent xs)) = []
 \<and> getQueueStats (run stalledBroker (map quietEvent xs)) = (1, 0, False)"
proof -
  have "stalledBroker
     = run (freshBroker defaultBrokerConfig)
         [Publish ''m1'' 0 Web ''hello'' (), Settled False, TimerFires 0]"
    by (simp add: stalledBroker_def oneMessageBroker_def run_def)
  moreover have "maxRetries (config stalledBroker) = 3"
    "messageQueue stalledBroker = [(exampleMessage ''m1'')\<lparr>retryCount := Some 1\<rparr>]"
    "deadLetterQueue stalledBroker = []"
    "getQueueStats stalledBroker = (1, 0, False)"
    by (simp_all add: stalledBroker_eq freshBroker_def defaultBrokerConfig_def getQueueStats_def)
  ultimately show ?thesis
    by (simp add: quiet_events_keep_stalledBroker)
qed

subsection \<open>The dispatcher after a retry reinsertion\<close>

text \<open>
  Claim C4. One message is published to a new broker (default configuration) and its
  handler rejects. The dispatcher was started by the publish, finds the queue empty after
  the failure and goes idle with the retry timer pending. When the timer expires the
  callback puts the retried message at the head of the queue and leaves the dispatcher
  idle: the message is queued (the statistics are 1 active, 0 dead letters, not
  processing), nothing is in flight, no timer is pending, and neither a settled promise
  nor a timer can move the broker any further.
\<close>

theorem C4_retry_reinsertion_leaves_dispatcher_idle:
  "processing oneMessageBroker
 \<and> \<not> processing (processMessageSettled False oneMessageBroker)
 \<and> timers (processMessageSettled False oneMessageBroker) = [(1000, exampleMessage ''m1'', 1)]
 \<and> \<not> processing stalledBroker
 \<and> messageQueue stalledBroker = [(exampleMessage ''m1'')\<lparr>retryCount := Some 1\<rparr>]
 \<and> inflight stalledBroker = None
 \<and> timers stalledBroker = []
 \<and> deadLetterQueue stalledBroker = []
 \<and> getQueueStats stalledBroker = (1, 0, False)
 \<and> processMessageSettled True stalledBroker = stalledBroker
 \<and> processMessageSettled False stalledBroker = stalledBroker
 \<and> timerFires 0 stalledBroker = stalledBroker"
  by (simp add: stalledBroker_def oneMessageBroker_eq freshBroker_def defaultBrokerConfig_def
      exampleMessage_def published_def loopHead_def getQueueStats_def
      processMessageSettled_def handleFailedMessage_def retryCountOr0_def backoffDelay_def
      timerFires_def retryCallback_def Let_def)

subsection \<open>Backoff\<close>

text \<open>
  Claim C5. When a failed message is within its budget, with \<open>attempt\<close> the incremented
  count (\<open>1\<close> at the first retry), \<open>handleFailedMessage\<close> registers exactly one timer, with
  delay \<open>retryDelay * 2 ^ (attempt - 1)\<close>, and leaves the queue alone; when that timer
  expires, the message with \<open>retryCount = attempt\<close> is the new head of the queue. With the
  default configuration (\<open>maxRetries = 3\<close>, \<open>retryDelay = 1000\<close> ms) the delays of attempts
  1, 2, 3 are 1000, 2000, 4000 ms.
\<close>

theorem C5_exponential_backoff:
  "(int (retryCountOr0 m + 1) \<le> maxRetries (config s) \<longrightarrow>
      timers (handleFailedMessage m s)
        = timers s @ [(retryDelay (config s) * 2 ^ ((retryCountOr0 m + 1) - 1), m, retryCountOr0 m + 1)]
    \<and> messageQueue (handleFailedMessage m s) = messageQueue s
    \<and> messageQueue (timerFires (length (timers s)) (handleFailedMessage m s))
        = (m\<lparr>retryCount := Some (retryCountOr0 m + 1)\<rparr>) # messageQueue s
    \<and> timers (timerFires (length (timers s)) (handleFailedMessage m s)) = timers s)
 \<and> maxRetries defaultBrokerConfig = 3
 \<and> map (backoffDelay defaultBrokerConfig) [1, 2, 3] = [1000, 2000, 4000]"
  by (simp add: handleFailedMessage_def backoffDelay_def timerFires_def retryCallback_def
      defaultBrokerConfig_def Let_def)

theorem C5_exponential_backoff_witness:
  "timers (handleFailedMessage ((exampleMessage ''a'')\<lparr>retryCount := Some 2\<rparr>)
             (freshBroker defaultBrokerConfig))
     = [(4000, (exampleMessage ''a'')\<lparr>retryCount := Some 2\<rparr>, 3)]
 \<and> messageQueue (timerFires 0 (handleFailedMessage ((exampleMessage ''a'')\<lparr>retryCount := Some 2\<rparr>)
             (freshBroker defaultBrokerConfig)))
     = [(exampleMessage ''a'')\<lparr>retryCount := Some 3\<rparr>]"
proof -
  have r: "retryCountOr0 ((exampleMessage ''a'')\<lparr>retryCount := Some 2\<rparr>) = 2"
    by (simp add: retryCountOr0_def)
  have c: "config (freshBroker defaultBrokerConfig :: unit MessageBroker) = defaultBrokerConfig"
    and t: "timers (freshBroker defaultBrokerConfig :: unit MessageBroker) = []"
    and q: "messageQueue (freshBroker defaultBrokerConfig :: unit MessageBroker) = []"
    by (simp_all add: freshBroker_def)
  have d: "maxRetries defaultBrokerConfig = 3" "retryDelay defaultBrokerConfig = 1000"
    by (simp_all add: defaultBrokerConfig_def)
  from C5_exponential_backoff
    [of "(exampleMessage ''a'')\<lparr>retryCount := Some 2\<rparr>" "freshBroker defaultBrokerConfig"]
  show ?thesis by (simp add: r c t q d)
qed

subsection \<open>The dead-letter queue is bounded\<close>

lemma moveToDeadLetterQueue_bound:
  assumes "0 < deadLetterQueueSize (config s)"
      and "int (length (deadLetterQueue s)) \<le> deadLetterQueueSize (config s)"
  shows "int (length (deadLetterQueue (moveToDeadLetterQueue m s))) \<le> deadLetterQueueSize (config s)"
  using assms by (cases "deadLetterQueue s") (auto simp: moveToDeadLetterQueue_def Let_def)

lemma step_bound:
  assumes "0 < deadLetterQueueSize (config s)"
      and "int (length (deadLetterQueue s)) \<le> deadLetterQueueSize (config s)"
  shows "int (length (deadLetterQueue (step s e))) \<le> deadLetterQueueSize (config s)"
proof (cases e)
  case (Publish newId now ch body md)
  with assms show ?thesis by (simp add: publishMessage_def processQueue_def Let_def)
next
  case (Settled ok)
  show ?thesis
  proof (cases "inflight s")
    case None
    with Settled assms show ?thesis by (simp add: processMessageSettled_def)
  next
    case (Some m)
    have "int (length (deadLetterQueue (handleFailedMessage m (s\<lparr>inflight := None\<rparr>))))
            \<le> deadLetterQueueSize (config s)"
      using assms moveToDeadLetterQueue_bound[of "s\<lparr>inflight := None\<rparr>" m]
      by (simp add: handleFailedMessage_def Let_def)
    with Some Settled assms show ?thesis by (simp add: processMessageSettled_def)
  qed
next
  case (TimerFires i)
  with assms show ?thesis by (simp add: timerFires_def retryCallback_def split: prod.splits)
next
  case (RetryDeadLetter i)
  with assms show ?thesis
    by (auto simp: retryDeadLetterMessage_def processQueue_def Let_def split: option.splits)
qed

lemma run_bound:
  "0 < deadLetterQueueSize (config s) \<Longrightarrow>
   int (length (deadLetterQueue s)) \<le> deadLetterQueueSize (config s) \<Longrightarrow>
   int (length (deadLetterQueue (run s evs))) \<le> deadLetterQueueSize (config s)
   \<and> config (run s evs) = config s"
proof (induction evs arbitrary: s)
  case Nil
  then show ?case by (simp add: run_def)
next
  case (Cons e evs)
  from Cons.prems step_bound[of s e] have
    "0 < deadLetterQueueSize (config (step s e))"
    "int (length (deadLetterQueue (step s e))) \<le> deadLetterQueueSize (config (step s e))"
    by simp_all
  from Cons.IH[OF this] show ?case by (simp add: run_def)
qed

text \<open>
  Claim C6. For a positive configured capacity (the configuration domain of the
  specification) and a dead-letter queue within it: an insertion into a queue that is at
  capacity drops the oldest entry and appends the new one; an insertion below capacity
  only appends; and after every run of events (publish, settled handler, expired timer,
  requeue) the queue is still within the capacity. A new broker is within capacity, so the
  bound holds in every state it can reach.
\<close>

theorem C6_dead_letter_queue_bounded:
  assumes "0 < deadLetterQueueSize (config s)"
      and "int (length (deadLetterQueue s)) \<le> deadLetterQueueSize (config s)"
  shows "(int (length (deadLetterQueue s)) = deadLetterQueueSize (config s) \<longrightarrow>
            deadLetterQueue (moveToDeadLetterQueue m s) = tl (deadLetterQueue s) @ [m])
       \<and> (int (length (deadLetterQueue s)) < deadLetterQueueSize (config s) \<longrightarrow>
            deadLetterQueue (moveToDeadLetterQueue m s) = deadLetterQueue s @ [m])
       \<and> int (length (deadLetterQueue (moveToDeadLetterQueue m s))) \<le> deadLetterQueueSize (config s)
       \<and> int (length (deadLetterQueue (run s evs))) \<le> deadLetterQueueSize (config s)
       \<and> (0 < deadLetterQueueSize cfg \<longrightarrow>
            int (length (deadLetterQueue (run (freshBroker cfg) evs'))) \<le> deadLetterQueueSize cfg)"
proof (intro conjI impI)
  show "int (length (deadLetterQueue (moveToDeadLetterQueue m s))) \<le> deadLetterQueueSize (config s)"
    using moveToDeadLetterQueue_bound[OF assms] .
  show "int (length (deadLetterQueue (run s evs))) \<le> deadLetterQueueSize (config s)"
    using run_bound[OF assms] by simp
  show "int (length (deadLetterQueue (run (freshBroker cfg) evs'))) \<le> deadLetterQueueSize cfg"
    if "0 < deadLetterQueueSize cfg"
    using run_bound[of "freshBroker cfg" evs'] that by (simp add: freshBroker_def)
qed (simp_all add: moveToDeadLetterQueue_def Let_def)

theorem C6_dead_letter_queue_bounded_witness:
  "deadLetterQueue (moveToDeadLetterQueue (exampleMessage ''c'') fullBroker)
     = [exampleMessage ''b'', exampleMessage ''c'']
 \<and> int (length (deadLetterQueue (run fullBroker [Settled False, TimerFires 0]))) \<le> 2"
proof -
  have c: "deadLetterQueueSize (config fullBroker) = 2"
    and d: "deadLetterQueue fullBroker = [exampleMessage ''a'', exampleMessage ''b'']"
    by (simp_all add: fullBroker_def freshBroker_def smallConfig_def)
  have p: "0 < deadLetterQueueSize (config fullBroker)"
    and b: "int (length (deadLetterQueue fullBroker)) \<le> deadLetterQueueSize (config fullBroker)"
    by (simp_all add: c d)
  note inst = C6_dead_letter_queue_bounded
    [OF p b, of "exampleMessage ''c''" "[Settled False, TimerFires 0]" smallConfig "[]"]
  from inst[THEN conjunct1] have evict:
    "deadLetterQueue (moveToDeadLetterQueue (exampleMessage ''c'') fullBroker)
       = [exampleMessage ''b'', exampleMessage ''c'']"
    by (simp add: c d)
  from inst[THEN conjunct2, THEN conjunct2, THEN conjunct2, THEN conjunct1] have bound:
    "int (length (deadLetterQueue (run fullBroker [Settled False, TimerFires 0]))) \<le> 2"
    by (simp only: c)
  from evict bound show ?thesis by (rule conjI)
qed

subsection \<open>Requeueing a dead letter\<close>

text \<open>
  Claim C7. \<open>retryDeadLetterMessage\<close> returns true exactly when some dead letter has the
  identifier. With no such entry it returns false and the broker is unchanged. With the
  first such entry at index \<open>k\<close>: that entry leaves the dead-letter queue, it is appended
  to the queue with \<open>retryCount = 0\<close>, and the dispatcher is running afterwards (started
  if it was idle, in which case it takes the head of the queue at once); timers and
  configuration are untouched. When the identifiers of the dead letters are distinct, a
  second call with the same identifier returns false and changes nothing.
\<close>

theorem C7_requeue_dead_letter:
  "(fst (retryDeadLetterMessage i s) \<longleftrightarrow> (\<exists>m\<in>set (deadLetterQueue s). msg_id m = i))
 \<and> ((\<forall>m\<in>set (deadLetterQueue s). msg_id m \<noteq> i) \<longrightarrow> retryDeadLetterMessage i s = (False, s))
 \<and> (\<forall>k. findIndex (\<lambda>m. msg_id m = i) (deadLetterQueue s) = Some k \<longrightarrow>
       k < length (deadLetterQueue s) \<and> msg_id (deadLetterQueue s ! k) = i
     \<and> deadLetterQueue (snd (retryDeadLetterMessage i s))
         = take k (deadLetterQueue s) @ drop (Suc k) (deadLetterQueue s)
     \<and> processing (snd (retryDeadLetterMessage i s))
     \<and> (if processing s
          then messageQueue (snd (retryDeadLetterMessage i s))
                 = messageQueue s @ [(deadLetterQueue s ! k)\<lparr>retryCount := Some 0\<rparr>]
             \<and> inflight (snd (retryDeadLetterMessage i s)) = inflight s
          else inflight (snd (retryDeadLetterMessage i s))
                 = Some (hd (messageQueue s @ [(deadLetterQueue s ! k)\<lparr>retryCount := Some 0\<rparr>]))
             \<and> messageQueue (snd (retryDeadLetterMessage i s))
                 = tl (messageQueue s @ [(deadLetterQueue s ! k)\<lparr>retryCount := Some 0\<rparr>]))
     \<and> timers (snd (retryDeadLetterMessage i s)) = timers s
     \<and> config (snd (retryDeadLetterMessage i s)) = config s
     \<and> (distinct (map msg_id (deadLetterQueue s)) \<longrightarrow>
           retryDeadLetterMessage i (snd (retryDeadLetterMessage i s))
             = (False, snd (retryDeadLetterMessage i s))))"
proof (intro conjI allI impI)
  show "fst (retryDeadLetterMessage i s) \<longleftrightarrow> (\<exists>m\<in>set (deadLetterQueue s). msg_id m = i)"
    using findIndex_None[of "\<lambda>m. msg_id m = i" "deadLetterQueue s"]
    by (auto simp: retryDeadLetterMessage_def Let_def split: option.splits)
next
  assume "\<forall>m\<in>set (deadLetterQueue s). msg_id m \<noteq> i"
  then have "findIndex (\<lambda>m. msg_id m = i) (deadLetterQueue s) = None"
    by (simp add: findIndex_None)
  then show "retryDeadLetterMessage i s = (False, s)"
    by (simp add: retryDeadLetterMessage_def)
next
  fix k assume k: "findIndex (\<lambda>m. msg_id m = i) (deadLetterQueue s) = Some k"
  from findIndex_Some[OF k]
  show "k < length (deadLetterQueue s)" "msg_id (deadLetterQueue s ! k) = i"
    by auto
  show dl: "deadLetterQueue (snd (retryDeadLetterMessage i s))
              = take k (deadLetterQueue s) @ drop (Suc k) (deadLetterQueue s)"
    using k by (simp add: retryDeadLetterMessage_def Let_def processQueue_def)
  show "processing (snd (retryDeadLetterMessage i s))"
    using k by (simp add: retryDeadLetterMessage_def Let_def processQueue_def loopHead_def
        split: list.splits)
  show "if processing s
          then messageQueue (snd (retryDeadLetterMessage i s))
                 = messageQueue s @ [(deadLetterQueue s ! k)\<lparr>retryCount := Some 0\<rparr>]
             \<and> inflight (snd (retryDeadLetterMessage i s)) = inflight s
          else inflight (snd (retryDeadLetterMessage i s))
                 = Some (hd (messageQueue s @ [(deadLetterQueue s ! k)\<lparr>retryCount := Some 0\<rparr>]))
             \<and> messageQueue (snd (retryDeadLetterMessage i s))
                 = tl (messageQueue s @ [(deadLetterQueue s ! k)\<lparr>retryCount := Some 0\<rparr>])"
    using k by (simp add: retryDeadLetterMessage_def Let_def processQueue_def loopHead_def
        split: list.splits)
  show "timers (snd (retryDeadLetterMessage i s)) = timers s"
    using k by (simp add: retryDeadLetterMessage_def Let_def processQueue_def)
  show "config (snd (retryDeadLetterMessage i s)) = config s"
    using k by (simp add: retryDeadLetterMessage_def Let_def processQueue_def)
  show "retryDeadLetterMessage i (snd (retryDeadLetterMessage i s))
          = (False, snd (retryDeadLetterMessage i s))"
    if "distinct (map msg_id (deadLetterQueue s))"
    using findIndex_removed[OF k that] dl
    by (simp add: retryDeadLetterMessage_def[of i "snd (retryDeadLetterMessage i s)"])
qed

theorem C7_requeue_dead_letter_witness:
  "retryDeadLetterMessage ''b'' fullBroker
     = (True, (freshBroker smallConfig)
          \<lparr>deadLetterQueue := [exampleMessage ''a''], processing := True,
            inflight := Some (exampleMessage ''b'')\<rparr>)
 \<and> retryDeadLetterMessage ''b'' (snd (retryDeadLetterMessage ''b'' fullBroker))
     = (False, snd (retryDeadLetterMessage ''b'' fullBroker))
 \<and> retryDeadLetterMessage ''z'' fullBroker = (False, fullBroker)"
proof -
  have d: "deadLetterQueue fullBroker = [exampleMessage ''a'', exampleMessage ''b'']"
    by (simp add: fullBroker_def freshBroker_def)
  have ids: "msg_id (exampleMessage ''a'') = ''a''" "msg_id (exampleMessage ''b'') = ''b''"
    by (simp_all add: exampleMessage_def published_def)
  have k: "findIndex (\<lambda>m. msg_id m = ''b'') (deadLetterQueue fullBroker) = Some 1"
    by (simp add: d ids)
  have dist: "distinct (map msg_id (deadLetterQueue fullBroker))"
    by (simp add: d ids)
  have absent: "\<forall>m\<in>set (deadLetterQueue fullBroker). msg_id m \<noteq> ''z''"
    by (simp add: d ids)
  note inst = C7_requeue_dead_letter[of "''b''" fullBroker]
  from inst[THEN conjunct2, THEN conjunct2, rule_format, OF k] dist
  have twice: "retryDeadLetterMessage ''b'' (snd (retryDeadLetterMessage ''b'' fullBroker))
     = (False, snd (retryDeadLetterMessage ''b'' fullBroker))"
    by simp
  from C7_requeue_dead_letter[of "''z''" fullBroker, THEN conjunct2, THEN conjunct1] absent
  have none: "retryDeadLetterMessage ''z'' fullBroker = (False, fullBroker)"
    by simp
  have first: "retryDeadLetterMessage ''b'' fullBroker
     = (True, (freshBroker smallConfig)
          \<lparr>deadLetterQueue := [exampleMessage ''a''], processing := True,
            inflight := Some (exampleMessage ''b'')\<rparr>)"
    by (simp add: retryDeadLetterMessage_def k d fullBroker_def freshBroker_def processQueue_def
        loopHead_def exampleMessage_def published_def Let_def)
  from first twice none show ?thesis by simp
qed

section \<open>Properties of the idempotency manager\<close>

subsection \<open>The check\<close>

text \<open>
  Claim C2. \<open>checkIdempotency\<close> on the key of \<open>(actionId, customerId)\<close>: with no record it
  lets the call proceed and changes nothing; with a record whose \<open>expiresAt\<close> is before
  \<open>now\<close> it lets the call proceed and deletes the record; with a live record it refuses
  with \<open>Action is still in progress\<close> when the record is pending, refuses with
  \<open>Action already completed\<close> and hands the record (hence its cached result) back when it
  is completed, and when it is failed refuses with \<open>Max retries exceeded\<close> if the record's
  retry count has reached \<open>maxRetries\<close> and lets the call proceed otherwise.
\<close>

theorem C2_check_idempotency:
  "(store s (generateKey aid cid) = None \<longrightarrow>
      checkIdempotency now aid cid atype s
        = (\<lparr>canProceed = True, existingRecord = None, reason = None\<rparr>, s))
 \<and> (\<forall>r. store s (generateKey aid cid) = Some r \<longrightarrow>
      (now > expiresAt r \<longrightarrow>
         checkIdempotency now aid cid atype s
           = (\<lparr>canProceed = True, existingRecord = None, reason = None\<rparr>,
              s\<lparr>store := (store s)(generateKey aid cid := None)\<rparr>))
    \<and> (\<not> now > expiresAt r \<longrightarrow>
         (status r = Pending \<longrightarrow>
            checkIdempotency now aid cid atype s
              = (\<lparr>canProceed = False, existingRecord = Some r,
                  reason = Some ''Action is still in progress''\<rparr>, s))
       \<and> (status r = Completed \<longrightarrow>
            checkIdempotency now aid cid atype s
              = (\<lparr>canProceed = False, existingRecord = Some r,
                  reason = Some ''Action already completed''\<rparr>, s))
       \<and> (status r = Failed \<longrightarrow>
            checkIdempotency now aid cid atype s
              = (if retryCountOf (metadata r) \<ge> idemMaxRetries (idemConfig s)
                 then (\<lparr>canProceed = False, existingRecord = Some r,
                         reason = Some ''Max retries exceeded''\<rparr>, s)
                 else (\<lparr>canProceed = True, existingRecord = Some r, reason = None\<rparr>, s)))))"
  by (simp add: checkIdempotency_def Let_def)

lemma colonLedger_lookup:
  "store colonLedger (generateKey ''c'' ''a:b'')
     = Some (completedRecord defaultIdempotencyConfig 0 5 ''c'' ''a:b'' ''pay'' None 42)"
  by (simp add: colonLedger_def)

lemma completedRecord_sel:
  "status (completedRecord cfg t1 t2 aid cid atype md res) = Completed"
  "expiresAt (completedRecord cfg t1 t2 aid cid atype md res) = t1 + ttlMs cfg"
  "result (completedRecord cfg t1 t2 aid cid atype md res) = Some (ActionResult res)"
  by (simp_all add: completedRecord_def)

theorem C2_check_idempotency_witness:
  "checkIdempotency 10 ''c'' ''a:b'' ''pay'' colonLedger
     = (\<lparr>canProceed = False,
         existingRecord = Some (completedRecord defaultIdempotencyConfig 0 5 ''c'' ''a:b'' ''pay'' None 42),
         reason = Some ''Action already completed''\<rparr>, colonLedger)
 \<and> checkIdempotency 10 ''c'' ''a:b'' ''pay'' (emptyLedger defaultIdempotencyConfig)
     = (\<lparr>canProceed = True, existingRecord = None, reason = None\<rparr>,
        emptyLedger defaultIdempotencyConfig)"
proof -
  have live: "\<not> 10 > expiresAt (completedRecord defaultIdempotencyConfig 0 5 ''c'' ''a:b'' ''pay'' None (42::nat)
                                    :: (nat, unit) IdempotencyRecord)"
    by (simp add: completedRecord_sel defaultIdempotencyConfig_def)
  from C2_check_idempotency[of colonLedger "''c''" "''a:b''" 10 "''pay''",
      THEN conjunct2, rule_format, OF colonLedger_lookup, THEN conjunct2, rule_format, OF live,
      THEN conjunct2, THEN conjunct1]
  have a: "checkIdempotency 10 ''c'' ''a:b'' ''pay'' colonLedger
     = (\<lparr>canProceed = False,
         existingRecord = Some (completedRecord defaultIdempotencyConfig 0 5 ''c'' ''a:b'' ''pay'' None 42),
         reason = Some ''Action already completed''\<rparr>, colonLedger)"
    by (simp add: completedRecord_sel)
  have "store (emptyLedger defaultIdempotencyConfig) (generateKey ''c'' ''a:b'') = None"
    by (simp add: emptyLedger_def)
  with C2_check_idempotency[of "emptyLedger defaultIdempotencyConfig" "''c''" "''a:b''" 10 "''pay''",
      THEN conjunct1]
  have b: "checkIdempotency 10 ''c'' ''a:b'' ''pay'' (emptyLedger defaultIdempotencyConfig)
     = (\<lparr>canProceed = True, existingRecord = None, reason = None\<rparr>,
        emptyLedger defaultIdempotencyConfig)"
    by simp
  from a b show ?thesis by (rule conjI)
qed

subsection \<open>One call of the composite operation\<close>

lemma exec_cached:
  assumes "store s (generateKey aid cid) = Some r" "\<not> t0 > expiresAt r" "status r = Completed"
  shows "executeWithIdempotency t0 t1 t2 aid cid atype act md (s, w)
           = (\<lparr>success = True, resp_result = result r, fromCache = True, error = None\<rparr>, s, w)"
  using assms by (simp add: executeWithIdempotency_def checkIdempotency_def Let_def)

lemma exec_pending:
  assumes "store s (generateKey aid cid) = Some r" "\<not> t0 > expiresAt r" "status r = Pending"
  shows "executeWithIdempotency t0 t1 t2 aid cid atype act md (s, w)
           = (\<lparr>success = False, resp_result = None, fromCache = False,
               error = Some ''Action is still in progress''\<rparr>, s, w)"
  using assms
  by (simp add: executeWithIdempotency_def checkIdempotency_def reasonOrDefault_def Let_def)

lemma exec_exhausted:
  assumes "store s (generateKey aid cid) = Some r" "\<not> t0 > expiresAt r" "status r = Failed"
    "retryCountOf (metadata r) \<ge> idemMaxRetries (idemConfig s)"
  shows "executeWithIdempotency t0 t1 t2 aid cid atype act md (s, w)
           = (\<lparr>success = False, resp_result = None, fromCache = False,
               error = Some ''Max retries exceeded''\<rparr>, s, w)"
  using assms
  by (simp add: executeWithIdempotency_def checkIdempotency_def reasonOrDefault_def Let_def)

lemma exec_fresh:
  assumes "mayProceed t0 (generateKey aid cid) s"
  shows "executeWithIdempotency t0 t1 t2 aid cid atype act md (s, w)
           = (case act w of
                (Resolved res, w') \<Rightarrow>
                  (\<lparr>success = True, resp_result = Some (ActionResult res), fromCache = False,
                    error = None\<rparr>,
                   s\<lparr>store := (store s)(generateKey aid cid \<mapsto>
                        completedRecord (idemConfig s) t1 t2 aid cid atype md res)\<rparr>, w')
              | (out, w') \<Rightarrow>
                  (\<lparr>success = False, resp_result = None, fromCache = False,
                    error = Some (errorMessage out)\<rparr>,
                   s\<lparr>store := (store s)(generateKey aid cid \<mapsto>
                        failedRecord (idemConfig s) t1 t2 aid cid atype md (errorMessage out))\<rparr>, w'))"
proof (cases "store s (generateKey aid cid)")
  case None
  then show ?thesis
    by (simp add: executeWithIdempotency_def checkIdempotency_def storeAction_def markCompleted_def
        markFailed_def completedRecord_def failedRecord_def Let_def
        split: prod.splits outcome.splits)
next
  case (Some r)
  with assms have "t0 > expiresAt r
      \<or> (status r = Failed \<and> retryCountOf (metadata r) < idemMaxRetries (idemConfig s))"
    by (simp add: mayProceed_def)
  with Some show ?thesis
    by (auto simp: executeWithIdempotency_def checkIdempotency_def storeAction_def markCompleted_def
        markFailed_def completedRecord_def failedRecord_def Let_def
        split: prod.splits outcome.splits)
qed

lemma exec_fresh_resolved:
  assumes "mayProceed t0 (generateKey aid cid) s" "act w = (Resolved res, w')"
  shows "executeWithIdempotency t0 t1 t2 aid cid atype act md (s, w)
           = (\<lparr>success = True, resp_result = Some (ActionResult res), fromCache = False,
               error = None\<rparr>,
              s\<lparr>store := (store s)(generateKey aid cid \<mapsto>
                   completedRecord (idemConfig s) t1 t2 aid cid atype md res)\<rparr>, w')"
  using exec_fresh[OF assms(1), of t1 t2 atype act md w] assms(2) by simp

lemma exec_fresh_rejected:
  assumes "mayProceed t0 (generateKey aid cid) s" "act w = (out, w')" "\<forall>res. out \<noteq> Resolved res"
  shows "executeWithIdempotency t0 t1 t2 aid cid atype act md (s, w)
           = (\<lparr>success = False, resp_result = None, fromCache = False,
               error = Some (errorMessage out)\<rparr>,
              s\<lparr>store := (store s)(generateKey aid cid \<mapsto>
                   failedRecord (idemConfig s) t1 t2 aid cid atype md (errorMessage out))\<rparr>, w')"
  using exec_fresh[OF assms(1), of t1 t2 atype act md w] assms(2,3) by (cases out) simp_all

text \<open>The four situations of a key are exhaustive.\<close>

lemma exec_cases:
  "mayProceed t0 (generateKey aid cid) s \<or>
   (\<exists>r. store s (generateKey aid cid) = Some r \<and> \<not> t0 > expiresAt r \<and>
      (status r = Completed \<or> status r = Pending \<or>
       (status r = Failed \<and> retryCountOf (metadata r) \<ge> idemMaxRetries (idemConfig s))))"
proof (cases "store s (generateKey aid cid)")
  case None
  then show ?thesis by (simp add: mayProceed_def)
next
  case (Some r)
  then show ?thesis by (cases "status r") (auto simp: mayProceed_def)
qed

lemma exec_config [simp]:
  "idemConfig (fst (snd (executeWithIdempotency t0 t1 t2 aid cid atype act md (s, w)))) = idemConfig s"
proof -
  from exec_cases[of t0 aid cid s] show ?thesis
  proof (elim disjE exE conjE)
    assume "mayProceed t0 (generateKey aid cid) s"
    from exec_fresh[OF this, of t1 t2 atype act md w] show ?thesis
      by (simp split: prod.splits outcome.splits)
  next
    fix r assume r: "store s (generateKey aid cid) = Some r" "\<not> t0 > expiresAt r"
      and c: "status r = Completed"
    from exec_cached[OF r c, of t1 t2 atype act md w] show ?thesis by simp
  next
    fix r assume r: "store s (generateKey aid cid) = Some r" "\<not> t0 > expiresAt r"
      and c: "status r = Pending"
    from exec_pending[OF r c, of t1 t2 atype act md w] show ?thesis by simp
  next
    fix r assume r: "store s (generateKey aid cid) = Some r" "\<not> t0 > expiresAt r"
      and c: "status r = Failed" "retryCountOf (metadata r) \<ge> idemMaxRetries (idemConfig s)"
    from exec_exhausted[OF r c, of t1 t2 atype act md w] show ?thesis by simp
  qed
qed

subsection \<open>Sequences of calls\<close>

lemma execCalls_Cons_fst:
  "fst (execCalls aid cid atype (c # cs) sw)
     = fst (execCall aid cid atype c sw)
       # fst (execCalls aid cid atype cs (snd (execCall aid cid atype c sw)))"
  by (simp split: prod.splits)

lemma execCalls_Cons_snd:
  "snd (execCalls aid cid atype (c # cs) sw)
     = snd (execCalls aid cid atype cs (snd (execCall aid cid atype c sw)))"
  by (simp split: prod.splits)

text \<open>Once a live completed record is there, every call is answered from it.\<close>

lemma calls_all_cached:
  assumes "store s (generateKey aid cid) = Some r" "status r = Completed"
    "\<forall>c\<in>set cs. tCheck c \<le> expiresAt r"
  shows "execCalls aid cid atype cs (s, w)
           = (map (\<lambda>c. \<lparr>success = True, resp_result = result r, fromCache = True, error = None\<rparr>) cs,
              s, w)"
  using assms(3)
proof (induction cs)
  case Nil
  show ?case by simp
next
  case (Cons c cs)
  then have "\<not> tCheck c > expiresAt r" by auto
  from exec_cached[OF assms(1) this assms(2), of "tStore c" "tDone c" atype "callAction c" "callMetadata c" w]
    Cons show ?case
    by (simp add: execCall_def)
qed

text \<open>A response that reports a fresh success comes with a completed record for the key.\<close>

lemma freshSuccess_store:
  assumes "freshSuccess (fst (executeWithIdempotency t0 t1 t2 aid cid atype act md (s, w)))"
  shows "\<exists>res. fst (snd (executeWithIdempotency t0 t1 t2 aid cid atype act md (s, w)))
           = s\<lparr>store := (store s)(generateKey aid cid \<mapsto>
                        completedRecord (idemConfig s) t1 t2 aid cid atype md res)\<rparr>"
proof -
  have mp: "mayProceed t0 (generateKey aid cid) s"
  proof (rule ccontr)
    assume "\<not> mayProceed t0 (generateKey aid cid) s"
    with exec_cases[of t0 aid cid s]
    obtain r where r: "store s (generateKey aid cid) = Some r" "\<not> t0 > expiresAt r"
      "status r = Completed \<or> status r = Pending \<or>
         (status r = Failed \<and> retryCountOf (metadata r) \<ge> idemMaxRetries (idemConfig s))"
      by blast
    from r(3) have "\<not> freshSuccess (fst (executeWithIdempotency t0 t1 t2 aid cid atype act md (s, w)))"
    proof (elim disjE conjE)
      assume "status r = Completed"
      from exec_cached[OF r(1,2) this, of t1 t2 atype act md w] show ?thesis
        by (simp add: freshSuccess_def)
    next
      assume "status r = Pending"
      from exec_pending[OF r(1,2) this, of t1 t2 atype act md w] show ?thesis
        by (simp add: freshSuccess_def)
    next
      assume "status r = Failed" "retryCountOf (metadata r) \<ge> idemMaxRetries (idemConfig s)"
      from exec_exhausted[OF r(1,2) this, of t1 t2 atype act md w] show ?thesis
        by (simp add: freshSuccess_def)
    qed
    with assms show False by simp
  qed
  obtain out w1 where act: "act w = (out, w1)" by (cases "act w")
  show ?thesis
  proof (cases "\<exists>res. out = Resolved res")
    case True
    then obtain res where "out = Resolved res" by blast
    with act have "act w = (Resolved res, w1)" by simp
    from exec_fresh_resolved[of t0 aid cid s act w res w1 t1 t2 atype md, OF mp this] show ?thesis
      by (intro exI[of _ res]) simp
  next
    case False
    then have "\<forall>res. out \<noteq> Resolved res" by simp
    from exec_fresh_rejected[of t0 aid cid s act w out w1 t1 t2 atype md, OF mp act this] assms
    show ?thesis
      by (simp add: freshSuccess_def)
  qed
qed

lemma fresh_success_once:
  "\<forall>c\<in>set cs. tCheck c \<le> T \<and> T \<le> tStore c + ttlMs (idemConfig s) \<Longrightarrow>
   length (filter freshSuccess (fst (execCalls aid cid atype cs (s, w)))) \<le> 1"
proof (induction cs arbitrary: s w)
  case Nil
  show ?case by simp
next
  case (Cons c cs)
  obtain resp s' w' where ex: "execCall aid cid atype c (s, w) = (resp, s', w')"
    by (metis prod_cases3)
  have "idemConfig (fst (snd (execCall aid cid atype c (s, w)))) = idemConfig s"
    by (simp add: execCall_def)
  with ex have cfg: "idemConfig s' = idemConfig s" by simp
  have rest: "\<forall>c\<in>set cs. tCheck c \<le> T \<and> T \<le> tStore c + ttlMs (idemConfig s')"
    using Cons.prems cfg by simp
  show ?case
  proof (cases "freshSuccess resp")
    case False
    with Cons.IH[OF rest, of w'] ex show ?thesis
      by (simp only: execCalls_Cons_fst) simp
  next
    case True
    with ex have "freshSuccess (fst (executeWithIdempotency (tCheck c) (tStore c) (tDone c) aid cid atype
       (callAction c) (callMetadata c) (s, w)))"
      by (simp add: execCall_def)
    from freshSuccess_store[OF this] ex
    obtain res where s': "s' = s\<lparr>store := (store s)(generateKey aid cid \<mapsto>
        completedRecord (idemConfig s) (tStore c) (tDone c) aid cid atype (callMetadata c) res)\<rparr>"
      by (auto simp: execCall_def)
    define r where
      "r = completedRecord (idemConfig s) (tStore c) (tDone c) aid cid atype (callMetadata c) res"
    have r1: "store s' (generateKey aid cid) = Some r"
      using s' by (simp add: r_def)
    have r2: "status r = Completed" and r3: "expiresAt r = tStore c + ttlMs (idemConfig s)"
      by (simp_all add: r_def completedRecord_def)
    have "\<forall>c'\<in>set cs. tCheck c' \<le> expiresAt r"
    proof
      fix c' assume "c' \<in> set cs"
      with Cons.prems have "tCheck c' \<le> T" "T \<le> tStore c + ttlMs (idemConfig s)" by auto
      with r3 show "tCheck c' \<le> expiresAt r" by simp
    qed
    from calls_all_cached[OF r1 r2 this, of atype w']
    have "filter freshSuccess (fst (execCalls aid cid atype cs (s', w'))) = []"
      by (simp add: freshSuccess_def filter_empty_conv)
    with ex True show ?thesis by (simp only: execCalls_Cons_fst) simp
  qed
qed

text \<open>
  Claim C1. For the key of \<open>(actionId, customerId)\<close> and a call of
  \<open>executeWithIdempotency\<close> whose check is made at \<open>t0\<close>:
  \<^item> a live completed record: the call returns the record's result, marked as cached, and
    neither the ledger nor the world changes (the action is not invoked);
  \<^item> a live pending record, or a live failed record whose count has reached
    \<open>maxRetries\<close>: the call returns a failure with the reason of the check, and neither the
    ledger nor the world changes;
  \<^item> otherwise (no live record, or a failed one with retries left): the action is applied
    to the world exactly once; if it resolves, the response is that success and the key
    holds a completed record with the result; if it rejects, the response is a failure
    with the message and the key holds a failed record.
  And in every sequence of calls for the key whose checks are not after \<open>T\<close> and whose
  stores are not before \<open>T - ttl\<close> (one window of the time to live), at most one call
  reports an execution that resolved: every later call is answered from the cache.
\<close>

theorem C1_execute_with_idempotency:
  "(\<forall>r. store s (generateKey aid cid) = Some r \<and> \<not> t0 > expiresAt r \<and> status r = Completed \<longrightarrow>
      executeWithIdempotency t0 t1 t2 aid cid atype act md (s, w)
        = (\<lparr>success = True, resp_result = result r, fromCache = True, error = None\<rparr>, s, w))
 \<and> (\<forall>r. store s (generateKey aid cid) = Some r \<and> \<not> t0 > expiresAt r \<and> status r = Pending \<longrightarrow>
      executeWithIdempotency t0 t1 t2 aid cid atype act md (s, w)
        = (\<lparr>success = False, resp_result = None, fromCache = False,
            error = Some ''Action is still in progress''\<rparr>, s, w))
 \<and> (\<forall>r. store s (generateKey aid cid) = Some r \<and> \<not> t0 > expiresAt r \<and> status r = Failed
        \<and> retryCountOf (metadata r) \<ge> idemMaxRetries (idemConfig s) \<longrightarrow>
      executeWithIdempotency t0 t1 t2 aid cid atype act md (s, w)
        = (\<lparr>success = False, resp_result = None, fromCache = False,
            error = Some ''Max retries exceeded''\<rparr>, s, w))
 \<and> ((\<forall>r. store s (generateKey aid cid) = Some r \<and> \<not> t0 > expiresAt r \<longrightarrow>
          status r = Failed \<and> retryCountOf (metadata r) < idemMaxRetries (idemConfig s)) \<longrightarrow>
      executeWithIdempotency t0 t1 t2 aid cid atype act md (s, w)
        = (case act w of
             (Resolved res, w') \<Rightarrow>
               (\<lparr>success = True, resp_result = Some (ActionResult res), fromCache = False,
                 error = None\<rparr>,
                s\<lparr>store := (store s)(generateKey aid cid \<mapsto>
                     completedRecord (idemConfig s) t1 t2 aid cid atype md res)\<rparr>, w')
           | (out, w') \<Rightarrow>
               (\<lparr>success = False, resp_result = None, fromCache = False,
                 error = Some (errorMessage out)\<rparr>,
                s\<lparr>store := (store s)(generateKey aid cid \<mapsto>
                     failedRecord (idemConfig s) t1 t2 aid cid atype md (errorMessage out))\<rparr>, w')))
 \<and> ((\<forall>c\<in>set cs. tCheck c \<le> T \<and> T \<le> tStore c + ttlMs (idemConfig s)) \<longrightarrow>
      length (filter freshSuccess (fst (execCalls aid cid atype cs (s, w)))) \<le> 1)"
proof (intro conjI allI impI)
  fix r assume "store s (generateKey aid cid) = Some r \<and> \<not> t0 > expiresAt r \<and> status r = Completed"
  then show "executeWithIdempotency t0 t1 t2 aid cid atype act md (s, w)
        = (\<lparr>success = True, resp_result = result r, fromCache = True, error = None\<rparr>, s, w)"
    using exec_cached[of s aid cid r t0 t1 t2 atype act md w] by blast
next
  fix r assume "store s (generateKey aid cid) = Some r \<and> \<not> t0 > expiresAt r \<and> status r = Pending"
  then show "executeWithIdempotency t0 t1 t2 aid cid atype act md (s, w)
        = (\<lparr>success = False, resp_result = None, fromCache = False,
            error = Some ''Action is still in progress''\<rparr>, s, w)"
    using exec_pending[of s aid cid r t0 t1 t2 atype act md w] by blast
next
  fix r assume "store s (generateKey aid cid) = Some r \<and> \<not> t0 > expiresAt r \<and> status r = Failed
        \<and> retryCountOf (metadata r) \<ge> idemMaxRetries (idemConfig s)"
  then show "executeWithIdempotency t0 t1 t2 aid cid atype act md (s, w)
        = (\<lparr>success = False, resp_result = None, fromCache = False,
            error = Some ''Max retries exceeded''\<rparr>, s, w)"
    using exec_exhausted[of s aid cid r t0 t1 t2 atype act md w] by blast
next
  assume "\<forall>r. store s (generateKey aid cid) = Some r \<and> \<not> t0 > expiresAt r \<longrightarrow>
          status r = Failed \<and> retryCountOf (metadata r) < idemMaxRetries (idemConfig s)"
  then have "mayProceed t0 (generateKey aid cid) s"
    by (auto simp: mayProceed_def split: option.splits)
  from exec_fresh[OF this, of t1 t2 atype act md w]
  show "executeWithIdempotency t0 t1 t2 aid cid atype act md (s, w)
        = (case act w of
             (Resolved res, w') \<Rightarrow>
               (\<lparr>success = True, resp_result = Some (ActionResult res), fromCache = False,
                 error = None\<rparr>,
                s\<lparr>store := (store s)(generateKey aid cid \<mapsto>
                     completedRecord (idemConfig s) t1 t2 aid cid atype md res)\<rparr>, w')
           | (out, w') \<Rightarrow>
               (\<lparr>success = False, resp_result = None, fromCache = False,
                 error = Some (errorMessage out)\<rparr>,
                s\<lparr>store := (store s)(generateKey aid cid \<mapsto>
                     failedRecord (idemConfig s) t1 t2 aid cid atype md (errorMessage out))\<rparr>, w'))" .
next
  assume "\<forall>c\<in>set cs. tCheck c \<le> T \<and> T \<le> tStore c + ttlMs (idemConfig s)"
  from fresh_success_once[OF this]
  show "length (filter freshSuccess (fst (execCalls aid cid atype cs (s, w)))) \<le> 1" .
qed

theorem C1_execute_with_idempotency_witness:
  "executeWithIdempotency 10 10 11 ''c'' ''a:b'' ''pay'' countingAction None (colonLedger, 0)
     = (\<lparr>success = True, resp_result = Some (ActionResult 42), fromCache = True, error = None\<rparr>,
        colonLedger, 0)
 \<and> executeWithIdempotency 10 10 11 ''c'' ''a:b'' ''pay'' countingAction None
       (emptyLedger defaultIdempotencyConfig, 0)
     = (\<lparr>success = True, resp_result = Some (ActionResult 7), fromCache = False, error = None\<rparr>,
        (emptyLedger defaultIdempotencyConfig)
          \<lparr>store := (store (emptyLedger defaultIdempotencyConfig))(generateKey ''c'' ''a:b'' \<mapsto>
               completedRecord defaultIdempotencyConfig 10 11 ''c'' ''a:b'' ''pay'' None 7)\<rparr>,
        1)
 \<and> length (filter freshSuccess
       (fst (execCalls ''c'' ''a:b'' ''pay'' [callAt 0 countingAction, callAt 5 countingAction]
              (emptyLedger defaultIdempotencyConfig, 0)))) \<le> 1"
proof -
  have live: "store colonLedger (generateKey ''c'' ''a:b'')
        = Some (completedRecord defaultIdempotencyConfig 0 5 ''c'' ''a:b'' ''pay'' None 42)
      \<and> \<not> 10 > expiresAt (completedRecord defaultIdempotencyConfig 0 5 ''c'' ''a:b'' ''pay'' None (42::nat)
                           :: (nat, unit) IdempotencyRecord)
      \<and> status (completedRecord defaultIdempotencyConfig 0 5 ''c'' ''a:b'' ''pay'' None (42::nat)
                  :: (nat, unit) IdempotencyRecord) = Completed"
    by (simp add: colonLedger_lookup completedRecord_sel defaultIdempotencyConfig_def)
  from C1_execute_with_idempotency
    [of colonLedger "''c''" "''a:b''" 10 10 11 "''pay''" countingAction None 0 "[]" 0,
      THEN conjunct1, rule_format, OF live]
  have cached: "executeWithIdempotency 10 10 11 ''c'' ''a:b'' ''pay'' countingAction None (colonLedger, 0)
     = (\<lparr>success = True, resp_result = Some (ActionResult 42), fromCache = True, error = None\<rparr>,
        colonLedger, 0)"
    by (simp add: completedRecord_sel)
  have none: "\<forall>r. store (emptyLedger defaultIdempotencyConfig) (generateKey ''c'' ''a:b'') = Some r
        \<and> \<not> 10 > expiresAt r \<longrightarrow>
          status r = Failed
        \<and> retryCountOf (metadata r) < idemMaxRetries (idemConfig (emptyLedger defaultIdempotencyConfig))"
    by (simp add: emptyLedger_def)
  from C1_execute_with_idempotency
    [of "emptyLedger defaultIdempotencyConfig" "''c''" "''a:b''" 10 10 11 "''pay''" countingAction None 0 "[]" 0,
      THEN conjunct2, THEN conjunct2, THEN conjunct2, THEN conjunct1, THEN mp, OF none]
  have fresh: "executeWithIdempotency 10 10 11 ''c'' ''a:b'' ''pay'' countingAction None
       (emptyLedger defaultIdempotencyConfig, 0)
     = (\<lparr>success = True, resp_result = Some (ActionResult 7), fromCache = False, error = None\<rparr>,
        (emptyLedger defaultIdempotencyConfig)
          \<lparr>store := (store (emptyLedger defaultIdempotencyConfig))(generateKey ''c'' ''a:b'' \<mapsto>
               completedRecord defaultIdempotencyConfig 10 11 ''c'' ''a:b'' ''pay'' None 7)\<rparr>,
        1)"
    by (simp add: countingAction_def emptyLedger_def)
  have window: "\<forall>c\<in>set [callAt 0 countingAction, callAt 5 countingAction].
      tCheck c \<le> 10 \<and> 10 \<le> tStore c + ttlMs (idemConfig (emptyLedger defaultIdempotencyConfig))"
    by (simp add: callAt_def emptyLedger_def defaultIdempotencyConfig_def)
  from C1_execute_with_idempotency
    [of "emptyLedger defaultIdempotencyConfig" "''c''" "''a:b''" 10 10 11 "''pay''" countingAction None 0
        "[callAt 0 countingAction, callAt 5 countingAction]" 10,
      THEN conjunct2, THEN conjunct2, THEN conjunct2, THEN conjunct2, THEN mp, OF window]
  have run: "length (filter freshSuccess
       (fst (execCalls ''c'' ''a:b'' ''pay'' [callAt 0 countingAction, callAt 5 countingAction]
              (emptyLedger defaultIdempotencyConfig, 0)))) \<le> 1" .
  from cached fresh run show ?thesis by simp
qed

subsection \<open>Repeated failures\<close>

lemma retryable_mayProceed:
  "retryable key s \<Longrightarrow> 2 \<le> idemMaxRetries (idemConfig s) \<Longrightarrow> mayProceed t key s"
  by (auto simp: retryable_def mayProceed_def split: option.splits)

lemma mayProceed_canProceed:
  "mayProceed t (generateKey aid cid) s \<Longrightarrow> canProceed (fst (checkIdempotency t aid cid atype s))"
  by (auto simp: mayProceed_def checkIdempotency_def Let_def split: option.splits)

lemma failing_call_step:
  assumes "retryable (generateKey aid cid) s" "2 \<le> idemMaxRetries (idemConfig s)"
    "alwaysFails (callAction c)" "retryCountOf (callMetadata c) = 0"
  shows "map_option (\<lambda>r. (status r, retryCountOf (metadata r)))
           (store (fst (snd (execCall aid cid atype c (s, w)))) (generateKey aid cid))
         = Some (Failed, 1)
       \<and> snd (snd (execCall aid cid atype c (s, w))) = snd (callAction c w)
       \<and> idemConfig (fst (snd (execCall aid cid atype c (s, w)))) = idemConfig s"
proof -
  obtain out w1 where act: "callAction c w = (out, w1)" by (cases "callAction c w")
  with assms(3) have nr: "\<forall>res. out \<noteq> Resolved res"
    by (metis alwaysFails_def fst_conv)
  have mp: "mayProceed (tCheck c) (generateKey aid cid) s"
    using retryable_mayProceed[OF assms(1,2)] .
  from exec_fresh_rejected[of "tCheck c" aid cid s "callAction c" w out w1 "tStore c" "tDone c" atype
      "callMetadata c", OF mp act nr] act assms(4)
  show ?thesis
    by (simp add: execCall_def failedRecord_def retryCountOf_def)
qed

lemma failedOnce_retryable:
  "map_option (\<lambda>r. (status r, retryCountOf (metadata r))) (store s key) = Some (Failed, 1)
   \<Longrightarrow> retryable key s"
  by (auto simp: retryable_def split: option.splits)

lemma failing_calls_run:
  assumes "2 \<le> idemMaxRetries (idemConfig s)" "retryable (generateKey aid cid) s"
    "\<forall>c\<in>set cs. alwaysFails (callAction c) \<and> retryCountOf (callMetadata c) = 0"
  shows "retryable (generateKey aid cid) (fst (snd (execCalls aid cid atype cs (s, w))))
       \<and> snd (snd (execCalls aid cid atype cs (s, w))) = foldl (\<lambda>w c. snd (callAction c w)) w cs
       \<and> idemConfig (fst (snd (execCalls aid cid atype cs (s, w)))) = idemConfig s
       \<and> (cs \<noteq> [] \<longrightarrow>
            map_option (\<lambda>r. (status r, retryCountOf (metadata r)))
              (store (fst (snd (execCalls aid cid atype cs (s, w)))) (generateKey aid cid))
            = Some (Failed, 1))"
  using assms
proof (induction cs arbitrary: s w)
  case Nil
  then show ?case by simp
next
  case (Cons c cs)
  obtain s' w' where sw: "snd (execCall aid cid atype c (s, w)) = (s', w')"
    by (cases "snd (execCall aid cid atype c (s, w))")
  from Cons.prems have c: "alwaysFails (callAction c)" "retryCountOf (callMetadata c) = 0" by auto
  from failing_call_step[OF Cons.prems(2,1) c, of atype w] sw
  have f1: "map_option (\<lambda>r. (status r, retryCountOf (metadata r))) (store s' (generateKey aid cid))
              = Some (Failed, 1)"
    and st': "w' = snd (callAction c w)" "idemConfig s' = idemConfig s"
    by simp_all
  note st = failedOnce_retryable[OF f1] st'
  from Cons.prems st have "2 \<le> idemMaxRetries (idemConfig s')"
    "\<forall>c\<in>set cs. alwaysFails (callAction c) \<and> retryCountOf (callMetadata c) = 0" by simp_all
  from Cons.IH[OF this(1) st(1) this(2), of w'] sw st f1 show ?case
    by (cases "cs = []") (simp_all only: execCalls_Cons_snd, simp_all)
qed

text \<open>
  Claim C10, as stated, fails for \<open>maxRetries \<le> 1\<close>: with \<open>maxRetries = 1\<close> the first
  failing call leaves a failed record with count \<open>1\<close>, and the second call (within the time
  to live) is refused with \<open>Max retries exceeded\<close>; the action has run once, not twice.
\<close>

theorem C10_refusal_reached_with_one_retry:
  "map error (fst (execCalls ''act'' ''cust'' ''pay'' [callAt 0 failingAction, callAt 10 failingAction]
                     (emptyLedger oneRetryConfig, 0)))
     = [Some ''boom'', Some ''Max retries exceeded'']
 \<and> snd (snd (execCalls ''act'' ''cust'' ''pay'' [callAt 0 failingAction, callAt 10 failingAction]
                (emptyLedger oneRetryConfig, 0))) = 1
 \<and> \<not> canProceed (fst (checkIdempotency 10 ''act'' ''cust'' ''pay''
        (fst (snd (execCalls ''act'' ''cust'' ''pay'' [callAt 0 failingAction]
                     (emptyLedger oneRetryConfig, 0))))))"
  by (simp add: execCall_def callAt_def failingAction_def emptyLedger_def oneRetryConfig_def
      executeWithIdempotency_def checkIdempotency_def storeAction_def markFailed_def
      generateKey_def retryCountOf_def spread_def emptyMetadata_def errorMessage_def
      reasonOrDefault_def Let_def)

text \<open>
  Claim C10, amended. With \<open>maxRetries \<ge> 2\<close>, a key that has no record, and any sequence
  of calls whose actions always reject and whose metadata carry no retry count: every
  call invokes its action (the world is threaded through all the actions, in order), and
  the check made by each call, and by any further call at any time, lets it proceed, so
  the refusal \<open>Max retries exceeded\<close> is never reached. The stored count is \<open>1\<close> after every
  call, because \<open>storeAction\<close> replaces the metadata before \<open>markFailed\<close> increments it.
\<close>

theorem C10_retry_budget_never_exhausted:
  assumes "2 \<le> idemMaxRetries (idemConfig s)" "store s (generateKey aid cid) = None"
    "\<forall>c\<in>set cs. alwaysFails (callAction c) \<and> retryCountOf (callMetadata c) = 0"
  shows "snd (snd (execCalls aid cid atype cs (s, w))) = foldl (\<lambda>w c. snd (callAction c w)) w cs
       \<and> (\<forall>n\<le>length cs. \<forall>t.
            canProceed (fst (checkIdempotency t aid cid atype
                         (fst (snd (execCalls aid cid atype (take n cs) (s, w)))))))
       \<and> (cs \<noteq> [] \<longrightarrow>
            map_option (\<lambda>r. (status r, retryCountOf (metadata r)))
              (store (fst (snd (execCalls aid cid atype cs (s, w)))) (generateKey aid cid))
            = Some (Failed, 1))"
proof (intro conjI allI impI)
  have r0: "retryable (generateKey aid cid) s" using assms(2) by (simp add: retryable_def)
  from failing_calls_run[OF assms(1) r0 assms(3)]
  show "snd (snd (execCalls aid cid atype cs (s, w))) = foldl (\<lambda>w c. snd (callAction c w)) w cs"
    by simp
  show "canProceed (fst (checkIdempotency t aid cid atype
                         (fst (snd (execCalls aid cid atype (take n cs) (s, w))))))"
    if "n \<le> length cs" for n t
  proof -
    have "\<forall>c\<in>set (take n cs). alwaysFails (callAction c) \<and> retryCountOf (callMetadata c) = 0"
      using assms(3) by (meson in_set_takeD)
    from failing_calls_run[OF assms(1) r0 this, of atype w]
    have "retryable (generateKey aid cid) (fst (snd (execCalls aid cid atype (take n cs) (s, w))))"
      "2 \<le> idemMaxRetries (idemConfig (fst (snd (execCalls aid cid atype (take n cs) (s, w)))))"
      using assms(1) by simp_all
    from mayProceed_canProceed[OF retryable_mayProceed[OF this]] show ?thesis .
  qed
  show "map_option (\<lambda>r. (status r, retryCountOf (metadata r)))
              (store (fst (snd (execCalls aid cid atype cs (s, w)))) (generateKey aid cid))
            = Some (Failed, 1)"
    if "cs \<noteq> []"
    using failing_calls_run[OF assms(1) r0 assms(3), of atype w] that by simp
qed


theorem C10_retry_budget_never_exhausted_witness:
  "snd (snd (execCalls ''act'' ''cust'' ''pay''
               [callAt 0 failingAction, callAt 10 failingAction, callAt 20 failingAction]
               (emptyLedger defaultIdempotencyConfig, 0))) = 3
 \<and> canProceed (fst (checkIdempotency 30 ''act'' ''cust'' ''pay''
      (fst (snd (execCalls ''act'' ''cust'' ''pay''
                   [callAt 0 failingAction, callAt 10 failingAction, callAt 20 failingAction]
                   (emptyLedger defaultIdempotencyConfig, 0))))))"
proof -
  have budget: "2 \<le> idemMaxRetries (idemConfig (emptyLedger defaultIdempotencyConfig))"
    by (simp add: emptyLedger_def defaultIdempotencyConfig_def)
  have absent: "store (emptyLedger defaultIdempotencyConfig) (generateKey ''act'' ''cust'') = None"
    by (simp add: emptyLedger_def)
  have calls: "\<forall>c\<in>set [callAt 0 failingAction, callAt 10 failingAction, callAt 20 failingAction].
      alwaysFails (callAction c) \<and> retryCountOf (callMetadata c) = 0"
    by (simp add: callAt_def alwaysFails_def failingAction_def retryCountOf_def)
  note inst = C10_retry_budget_never_exhausted[OF budget absent calls, of "''pay''" 0]
  from inst[THEN conjunct1]
  have world: "snd (snd (execCalls ''act'' ''cust'' ''pay''
               [callAt 0 failingAction, callAt 10 failingAction, callAt 20 failingAction]
               (emptyLedger defaultIdempotencyConfig, 0))) = 3"
    by (simp add: callAt_def failingAction_def)
  from inst[THEN conjunct2, THEN conjunct1, rule_format, of 3 30]
  have again: "canProceed (fst (checkIdempotency 30 ''act'' ''cust'' ''pay''
      (fst (snd (execCalls ''act'' ''cust'' ''pay''
                   [callAt 0 failingAction, callAt 10 failingAction, callAt 20 failingAction]
                   (emptyLedger defaultIdempotencyConfig, 0))))))"
    by simp
  from world again show ?thesis by (rule conjI)
qed

subsection \<open>The storage key\<close>

text \<open>The key separates the two identifiers as long as no customer identifier has a colon.\<close>

lemma generateKey_inj_without_colon:
  assumes "CHR '':'' \<notin> set cid" "CHR '':'' \<notin> set cid'"
    and "generateKey aid cid = generateKey aid' cid'"
  shows "aid = aid' \<and> cid = cid'"
  using assms
proof (induction cid arbitrary: cid')
  case Nil
  then show ?case by (cases cid') (auto simp: generateKey_def)
next
  case (Cons x xs)
  then show ?case by (cases cid') (auto simp: generateKey_def)
qed

text \<open>
  Claim C8. The pairs (action \<open>c\<close>, customer \<open>a:b\<close>) and (action \<open>b:c\<close>, customer \<open>a\<close>) are
  different and get the same key \<open>a:b:c\<close>. In a ledger where customer \<open>a:b\<close> has completed
  action \<open>c\<close> with result \<open>42\<close>, a call for customer \<open>a\<close> and action \<open>b:c\<close> is answered from
  the cache with that result, its own action not being invoked; and \<open>storeAction\<close> for
  customer \<open>a\<close> overwrites the record of customer \<open>a:b\<close>.
\<close>

theorem C8_key_collision:
  "generateKey ''c'' ''a:b'' = generateKey ''b:c'' ''a''
 \<and> (''c'', ''a:b'') \<noteq> (''b:c'', ''a'')
 \<and> executeWithIdempotency 10 10 11 ''b:c'' ''a'' ''pay'' countingAction None (colonLedger, 0)
     = (\<lparr>success = True, resp_result = Some (ActionResult 42), fromCache = True, error = None\<rparr>,
        colonLedger, 0)
 \<and> map_option customerId (store colonLedger (generateKey ''c'' ''a:b'')) = Some ''a:b''
 \<and> map_option customerId
      (store (snd (storeAction 10 ''b:c'' ''a'' ''pay'' None colonLedger)) (generateKey ''c'' ''a:b''))
     = Some ''a''"
  by (simp add: generateKey_def colonLedger_def completedRecord_def defaultIdempotencyConfig_def
      executeWithIdempotency_def checkIdempotency_def storeAction_def Let_def)

subsection \<open>Construction\<close>

text \<open>
  Claim C9, as stated, fails: a broker is constructed from a configuration with
  \<open>maxRetries = -1\<close> and \<open>deadLetterQueueSize = 0\<close>, and a ledger from one with
  \<open>maxRetries = -1\<close>; neither construction fails.
\<close>

theorem C9_negative_configuration_accepted:
  "\<not> isl (newMessageBroker negativeConfig :: config_error + unit MessageBroker)
 \<and> maxRetries negativeConfig < 0
 \<and> deadLetterQueueSize negativeConfig \<le> 0
 \<and> \<not> isl (newIdempotencyManager negativeIdempotencyConfig
            :: config_error + (nat, unit) IdempotencyManager)
 \<and> idemMaxRetries negativeIdempotencyConfig < 0"
  by (simp add: newMessageBroker_def newIdempotencyManager_def negativeConfig_def
      negativeIdempotencyConfig_def)

lemma step_single_dead_letter:
  assumes "deadLetterQueueSize (config s) \<le> 0" and "length (deadLetterQueue s) \<le> 1"
  shows "length (deadLetterQueue (step s e)) \<le> 1"
proof (cases e)
  case (Publish newId now ch body md)
  with assms show ?thesis by (simp add: publishMessage_def processQueue_def Let_def)
next
  case (Settled ok)
  show ?thesis
  proof (cases "inflight s")
    case None
    with Settled assms show ?thesis by (simp add: processMessageSettled_def)
  next
    case (Some m)
    have "length (deadLetterQueue (handleFailedMessage m (s\<lparr>inflight := None\<rparr>))) \<le> 1"
      using assms by (cases "deadLetterQueue s")
        (auto simp: handleFailedMessage_def moveToDeadLetterQueue_def Let_def)
    with Some Settled assms show ?thesis by (simp add: processMessageSettled_def)
  qed
next
  case (TimerFires i)
  with assms show ?thesis by (simp add: timerFires_def retryCallback_def split: prod.splits)
next
  case (RetryDeadLetter i)
  with assms show ?thesis
    by (auto simp: retryDeadLetterMessage_def processQueue_def Let_def split: option.splits)
qed

lemma run_single_dead_letter:
  "deadLetterQueueSize (config s) \<le> 0 \<Longrightarrow> length (deadLetterQueue s) \<le> 1 \<Longrightarrow>
   length (deadLetterQueue (run s evs)) \<le> 1"
proof (induction evs arbitrary: s)
  case Nil
  then show ?case by (simp add: run_def)
next
  case (Cons e evs)
  from Cons.prems step_single_dead_letter[of s e] have
    "deadLetterQueueSize (config (step s e)) \<le> 0" "length (deadLetterQueue (step s e)) \<le> 1"
    by simp_all
  from Cons.IH[OF this] show ?case by (simp add: run_def)
qed

text \<open>
  Claim C9, amended. Construction never fails: both constructors accept every
  configuration and store it as it is, without validating it. No configuration error is
  reported at call time either; the operations run with the stored values:
  \<^item> with a negative \<open>maxRetries\<close>, every failed message goes to the dead-letter queue at
    once, its first failure included, and no retry is scheduled;
  \<^item> with a non-positive \<open>deadLetterQueueSize\<close>, a dead-lettering drops the oldest entry
    (if any) and appends the message, so that in every state a new broker can reach the
    dead-letter queue holds at most one entry, and exactly the message after a
    dead-lettering in a new broker;
  \<^item> with a non-positive \<open>maxRetries\<close> of the ledger, a live failed record whose count is
    not negative is refused with \<open>Max retries exceeded\<close>, as an exhausted budget is.
\<close>

theorem C9_invalid_configuration_accepted_and_used:
  "newMessageBroker cfg = Inr (freshBroker cfg)
 \<and> config (freshBroker cfg) = cfg
 \<and> newIdempotencyManager icfg = Inr \<lparr>store = Map.empty, idemConfig = icfg\<rparr>
 \<and> (maxRetries (config s) < 0 \<longrightarrow>
       handleFailedMessage m s = moveToDeadLetterQueue m s
     \<and> timers (handleFailedMessage m s) = timers s
     \<and> last (deadLetterQueue (handleFailedMessage m s)) = m)
 \<and> (deadLetterQueueSize (config s) \<le> 0 \<longrightarrow>
       deadLetterQueue (moveToDeadLetterQueue m s) = tl (deadLetterQueue s) @ [m])
 \<and> (deadLetterQueueSize cfg \<le> 0 \<longrightarrow>
       deadLetterQueue (moveToDeadLetterQueue m (freshBroker cfg)) = [m]
     \<and> length (deadLetterQueue (run (freshBroker cfg) evs)) \<le> 1)
 \<and> (\<forall>r. idemMaxRetries (idemConfig l) \<le> 0
        \<and> store l (generateKey aid cid) = Some r \<and> \<not> now > expiresAt r
        \<and> status r = Failed \<and> 0 \<le> retryCountOf (metadata r) \<longrightarrow>
       checkIdempotency now aid cid atype l
         = (\<lparr>canProceed = False, existingRecord = Some r,
             reason = Some ''Max retries exceeded''\<rparr>, l))"
proof (intro conjI allI impI)
  show "length (deadLetterQueue (run (freshBroker cfg) evs)) \<le> 1"
    if "deadLetterQueueSize cfg \<le> 0"
    using run_single_dead_letter[of "freshBroker cfg" evs] that by (simp add: freshBroker_def)
  show "checkIdempotency now aid cid atype l
         = (\<lparr>canProceed = False, existingRecord = Some r,
             reason = Some ''Max retries exceeded''\<rparr>, l)"
    if "idemMaxRetries (idemConfig l) \<le> 0
        \<and> store l (generateKey aid cid) = Some r \<and> \<not> now > expiresAt r
        \<and> status r = Failed \<and> 0 \<le> retryCountOf (metadata r)" for r
    using that by (simp add: checkIdempotency_def Let_def)
qed (simp_all add: newMessageBroker_def newIdempotencyManager_def freshBroker_def
      handleFailedMessage_def moveToDeadLetterQueue_def Let_def)

theorem C9_invalid_configuration_accepted_and_used_witness:
  "handleFailedMessage (exampleMessage ''a'') (freshBroker negativeConfig)
     = (freshBroker negativeConfig)\<lparr>deadLetterQueue := [exampleMessage ''a'']\<rparr>
 \<and> length (deadLetterQueue (run (freshBroker negativeConfig)
       [Publish ''m1'' 0 Web ''one'' (), Settled False,
        Publish ''m2'' 1 Web ''two'' (), Settled False])) \<le> 1
 \<and> checkIdempotency 10 ''act'' ''cust'' ''pay'' negativeLedger
     = (\<lparr>canProceed = False,
         existingRecord = Some (failedRecord negativeIdempotencyConfig 0 1 ''act'' ''cust'' ''pay''
                                  None ''boom''),
         reason = Some ''Max retries exceeded''\<rparr>, negativeLedger)"
proof -
  have neg: "maxRetries (config (freshBroker negativeConfig :: unit MessageBroker)) < 0"
    and cap: "deadLetterQueueSize negativeConfig \<le> 0"
    by (simp_all add: freshBroker_def negativeConfig_def)
  note inst = C9_invalid_configuration_accepted_and_used
    [of negativeConfig negativeIdempotencyConfig "freshBroker negativeConfig" "exampleMessage ''a''"
        "[Publish ''m1'' 0 Web ''one'' (), Settled False,
          Publish ''m2'' 1 Web ''two'' (), Settled False]"
        negativeLedger "''act''" "''cust''" 10 "''pay''"]
  from inst[THEN conjunct2, THEN conjunct2, THEN conjunct2, THEN conjunct1, THEN mp, OF neg,
      THEN conjunct1]
    inst[THEN conjunct2, THEN conjunct2, THEN conjunct2, THEN conjunct2, THEN conjunct2,
      THEN conjunct1, THEN mp, OF cap, THEN conjunct1]
  have a: "handleFailedMessage (exampleMessage ''a'') (freshBroker negativeConfig)
     = (freshBroker negativeConfig)\<lparr>deadLetterQueue := [exampleMessage ''a'']\<rparr>"
    by (simp add: moveToDeadLetterQueue_def freshBroker_def negativeConfig_def Let_def)
  from inst[THEN conjunct2, THEN conjunct2, THEN conjunct2, THEN conjunct2, THEN conjunct2,
      THEN conjunct1, THEN mp, OF cap, THEN conjunct2]
  have b: "length (deadLetterQueue (run (freshBroker negativeConfig)
       [Publish ''m1'' 0 Web ''one'' (), Settled False,
        Publish ''m2'' 1 Web ''two'' (), Settled False])) \<le> 1" .
  have rec: "idemMaxRetries (idemConfig negativeLedger) \<le> 0
      \<and> store negativeLedger (generateKey ''act'' ''cust'')
          = Some (failedRecord negativeIdempotencyConfig 0 1 ''act'' ''cust'' ''pay'' None ''boom'')
      \<and> \<not> 10 > expiresAt (failedRecord negativeIdempotencyConfig 0 1 ''act'' ''cust'' ''pay'' None ''boom''
                             :: (nat, unit) IdempotencyRecord)
      \<and> status (failedRecord negativeIdempotencyConfig 0 1 ''act'' ''cust'' ''pay'' None ''boom''
                   :: (nat, unit) IdempotencyRecord) = Failed
      \<and> 0 \<le> retryCountOf (metadata (failedRecord negativeIdempotencyConfig 0 1 ''act'' ''cust'' ''pay''
                                          None ''boom'' :: (nat, unit) IdempotencyRecord))"
    by (simp add: negativeLedger_def negativeIdempotencyConfig_def failedRecord_def retryCountOf_def)
  from inst[THEN conjunct2, THEN conjunct2, THEN conjunct2, THEN conjunct2, THEN conjunct2,
      THEN conjunct2, rule_format, OF rec]
  have c: "checkIdempotency 10 ''act'' ''cust'' ''pay'' negativeLedger
     = (\<lparr>canProceed = False,
         existingRecord = Some (failedRecord negativeIdempotencyConfig 0 1 ''act'' ''cust'' ''pay''
                                  None ''boom''),
         reason = Some ''Max retries exceeded''\<rparr>, negativeLedger)" .
  from a b c show ?thesis by simp
qed

end
